theory Spec2Isabelle
  imports Complex_Main "HOL-Library.AList" "HOL-Library.Log_Nat"
begin

section \<open>JavaScript values\<close>

text \<open>
  The cart reducer of \<^verbatim>\<open>frontend/src/context/CartContext.jsx\<close> inspects its payloads
  with \<^verbatim>\<open>typeof\<close>, \<^verbatim>\<open>!\<close>, \<^verbatim>\<open>isNaN\<close> and \<^verbatim>\<open>??\<close>, so payloads are modelled as
  dynamically typed values.

  A number is NaN, one of the two infinities, or a finite value \<open>Fin r\<close>. The sum and the
  product of finite values are rounded as IEEE 754 double precision rounds them (to the
  nearest double, ties to the even significand, overflow to an infinity), see
  \<open>round_double\<close> below. The two zeros are not told apart. The type also holds the
  rationals that are no double; the sum and the product of two finite values are always
  doubles, and \<^verbatim>\<open>Number.MAX_VALUE\<close> bounds every finite number of JavaScript.
\<close>

datatype jsnum = NaN | PosInf | NegInf | Fin rat

text \<open>
  An object is the list of its own enumerable properties in property order. Functions,
  arrays, symbols and accessor properties are not represented.
\<close>

datatype jsval =
    JUndefined
  | JNull
  | JBool bool
  | JNum jsnum
  | JStr string
  | JObj "(string \<times> jsval) list"

type_synonym obj = "(string \<times> jsval) list"

datatype error =
    Error string  \<comment> \<open>\<^verbatim>\<open>throw new Error(message)\<close>\<close>
  | TypeError     \<comment> \<open>reading a property of \<^verbatim>\<open>undefined\<close> or \<^verbatim>\<open>null\<close>\<close>

text \<open>\<^verbatim>\<open>console.warn(message, ...args)\<close>: the only side effect of the reducer.\<close>

datatype diag = Warn string "jsval list"

definition bind_res :: "error + 'a \<Rightarrow> ('a \<Rightarrow> error + 'b) \<Rightarrow> error + 'b" where
  "bind_res m f = (case m of Inl e \<Rightarrow> Inl e | Inr x \<Rightarrow> f x)"

text \<open>ToBoolean, as used by \<^verbatim>\<open>!v\<close>.\<close>

fun truthy :: "jsval \<Rightarrow> bool" where
  "truthy JUndefined = False"
| "truthy JNull = False"
| "truthy (JBool b) = b"
| "truthy (JNum NaN) = False"
| "truthy (JNum (Fin r)) = (r \<noteq> 0)"
| "truthy (JNum _) = True"
| "truthy (JStr s) = (s \<noteq> [])"
| "truthy (JObj _) = True"

text \<open>\<^verbatim>\<open>o.k\<close> on an object of the state: a missing property reads as \<^verbatim>\<open>undefined\<close>.\<close>

definition field :: "obj \<Rightarrow> string \<Rightarrow> jsval" where
  "field fs k = (case map_of fs k of None \<Rightarrow> JUndefined | Some v \<Rightarrow> v)"

text \<open>
  \<^verbatim>\<open>v.k\<close> on an arbitrary value, also the reads of a destructuring pattern. Reading from
  \<^verbatim>\<open>undefined\<close> or \<^verbatim>\<open>null\<close> throws. A boolean, a number or a string has none of the
  properties the reducer reads (\<^verbatim>\<open>item\<close>, \<^verbatim>\<open>storeId\<close>, \<^verbatim>\<open>productId\<close>, \<^verbatim>\<open>name\<close>,
  \<^verbatim>\<open>price\<close>, \<^verbatim>\<open>quantity\<close>), so the read gives \<^verbatim>\<open>undefined\<close>.
\<close>

fun get_prop :: "jsval \<Rightarrow> string \<Rightarrow> error + jsval" where
  "get_prop JUndefined k = Inl TypeError"
| "get_prop JNull k = Inl TypeError"
| "get_prop (JObj fs) k = Inr (field fs k)"
| "get_prop _ k = Inr JUndefined"

text \<open>\<^verbatim>\<open>a ?? b\<close>\<close>

fun nullish :: "jsval \<Rightarrow> jsval \<Rightarrow> jsval" where
  "nullish JUndefined d = d"
| "nullish JNull d = d"
| "nullish v d = v"

text \<open>
  The own enumerable properties that \<^verbatim>\<open>{ ...v }\<close> copies. The reducer spreads only
  values that passed validation, which are objects (lemma \<open>invalid_item_object\<close>
  below); \<^verbatim>\<open>undefined\<close>, \<^verbatim>\<open>null\<close>, booleans and numbers spread to nothing, and the
  indexed characters a string would spread are not represented.
\<close>

fun own_props :: "jsval \<Rightarrow> obj" where
  "own_props (JObj fs) = fs"
| "own_props _ = []"

text \<open>
  \<^verbatim>\<open>{ ...o, quantity: v }\<close>: an existing \<^verbatim>\<open>quantity\<close> keeps its place and takes the new
  value, otherwise the property is added last.
\<close>

definition with_quantity :: "obj \<Rightarrow> jsval \<Rightarrow> obj" where
  "with_quantity fs v = AList.update ''quantity'' v fs"

subsection \<open>Numbers\<close>

fun isNaN :: "jsnum \<Rightarrow> bool" where
  "isNaN NaN = True"
| "isNaN _ = False"

text \<open>\<^verbatim>\<open>a < b\<close> and \<^verbatim>\<open>a <= b\<close> on numbers: false whenever an operand is NaN.\<close>

fun num_less :: "jsnum \<Rightarrow> jsnum \<Rightarrow> bool" where
  "num_less NaN _ = False"
| "num_less _ NaN = False"
| "num_less _ NegInf = False"
| "num_less NegInf _ = True"
| "num_less PosInf _ = False"
| "num_less (Fin a) PosInf = True"
| "num_less (Fin a) (Fin b) = (a < b)"

fun num_le :: "jsnum \<Rightarrow> jsnum \<Rightarrow> bool" where
  "num_le NaN _ = False"
| "num_le _ NaN = False"
| "num_le NegInf _ = True"
| "num_le _ NegInf = False"
| "num_le _ PosInf = True"
| "num_le PosInf _ = False"
| "num_le (Fin a) (Fin b) = (a \<le> b)"

fun Math_floor :: "jsnum \<Rightarrow> jsnum" where
  "Math_floor (Fin r) = Fin (of_int \<lfloor>r\<rfloor>)"
| "Math_floor n = n"

fun Number_isInteger :: "jsnum \<Rightarrow> bool" where
  "Number_isInteger (Fin r) = (of_int \<lfloor>r\<rfloor> = r)"
| "Number_isInteger _ = False"

fun num_neg :: "jsnum \<Rightarrow> jsnum" where
  "num_neg NaN = NaN"
| "num_neg PosInf = NegInf"
| "num_neg NegInf = PosInf"
| "num_neg (Fin a) = Fin (- a)"

text \<open>
  Rounding a rational to double precision. For \<open>x > 0\<close>, \<open>ilog2 x\<close> is the exponent \<open>e\<close>
  with \<open>2^e \<le> x < 2^(e+1)\<close>; the doubles near \<open>x\<close> are the multiples of
  \<open>quantum x = 2^(max e (-1022) - 52)\<close> (53 significant bits, exponents from \<open>-1022\<close>,
  subnormals below); \<open>x\<close> goes to the nearest multiple, to the even one when it is half
  way. From \<open>2^1024 - 2^970\<close>, half way between \<^verbatim>\<open>Number.MAX_VALUE\<close> and \<open>2^1024\<close>, the
  result is an infinity.
\<close>

definition ilog2 :: "rat \<Rightarrow> int" where
  "ilog2 x = (if 1 \<le> x then bitlen \<lfloor>x\<rfloor> - 1 else - bitlen (\<lceil>1 / x\<rceil> - 1))"

definition round_half_even :: "rat \<Rightarrow> int" where
  "round_half_even m =
     (let f = \<lfloor>m\<rfloor>; d = m - of_int f
      in if d < 1 / 2 then f else if 1 / 2 < d then f + 1 else if even f then f else f + 1)"

definition quantum :: "rat \<Rightarrow> rat" where
  "quantum x = 2 powi (max (ilog2 x) (- 1022) - 52)"

definition overflow_threshold :: rat where
  "overflow_threshold = 2 ^ 1024 - 2 ^ 970"

definition Number_MAX_VALUE :: rat where
  "Number_MAX_VALUE = 2 ^ 1024 - 2 ^ 971"

definition round_pos :: "rat \<Rightarrow> jsnum" where
  "round_pos x =
     (if overflow_threshold \<le> x then PosInf
      else Fin (of_int (round_half_even (x / quantum x)) * quantum x))"

definition round_double :: "rat \<Rightarrow> jsnum" where
  "round_double x =
     (if x = 0 then Fin 0 else if 0 < x then round_pos x else num_neg (round_pos (- x)))"

text \<open>\<^verbatim>\<open>a + b\<close> and \<^verbatim>\<open>a * b\<close> on numbers.\<close>

fun num_add :: "jsnum \<Rightarrow> jsnum \<Rightarrow> jsnum" where
  "num_add NaN _ = NaN"
| "num_add _ NaN = NaN"
| "num_add PosInf NegInf = NaN"
| "num_add NegInf PosInf = NaN"
| "num_add PosInf _ = PosInf"
| "num_add _ PosInf = PosInf"
| "num_add NegInf _ = NegInf"
| "num_add _ NegInf = NegInf"
| "num_add (Fin a) (Fin b) = round_double (a + b)"



text \<open>
  \<^verbatim>\<open>v + 1\<close>: numeric addition on a number; a string (and an object, through its default
  \<^verbatim>\<open>toString\<close>) concatenates; the other primitives are converted to numbers first.
\<close>

fun plus_one :: "jsval \<Rightarrow> jsval" where
  "plus_one (JNum n) = JNum (num_add n (Fin 1))"
| "plus_one (JStr s) = JStr (s @ ''1'')"
| "plus_one (JObj _) = JStr ''[object Object]1''"
| "plus_one JUndefined = JNum NaN"
| "plus_one JNull = JNum (Fin 1)"
| "plus_one (JBool b) = JNum (Fin (if b then 2 else 1))"

subsection \<open>Arrays\<close>

text \<open>\<^verbatim>\<open>Array.prototype.findIndex\<close>: the first index whose element passes, or \<open>-1\<close>.\<close>

fun findIndex_from :: "('a \<Rightarrow> bool) \<Rightarrow> nat \<Rightarrow> 'a list \<Rightarrow> int" where
  "findIndex_from P i [] = - 1"
| "findIndex_from P i (x # xs) = (if P x then int i else findIndex_from P (Suc i) xs)"

definition findIndex :: "('a \<Rightarrow> bool) \<Rightarrow> 'a list \<Rightarrow> int" where
  "findIndex P xs = findIndex_from P 0 xs"

text \<open>\<^verbatim>\<open>Array.prototype.map\<close> with the \<^verbatim>\<open>(element, index)\<close> callback.\<close>

fun map_from :: "('a \<Rightarrow> nat \<Rightarrow> 'b) \<Rightarrow> nat \<Rightarrow> 'a list \<Rightarrow> 'b list" where
  "map_from f i [] = []"
| "map_from f i (x # xs) = f x i # map_from f (Suc i) xs"

definition map_index :: "('a \<Rightarrow> nat \<Rightarrow> 'b) \<Rightarrow> 'a list \<Rightarrow> 'b list" where
  "map_index f xs = map_from f 0 xs"

section \<open>The cart state and its reducer\<close>

record cart_state =
  storeId :: "string option"  \<comment> \<open>\<^verbatim>\<open>string | null\<close>\<close>
  items :: "obj list"

record action =
  type :: string
  payload :: jsval  \<comment> \<open>\<^verbatim>\<open>undefined\<close> when the action carries none\<close>

definition initialCartState :: cart_state where
  "initialCartState = \<lparr>storeId = None, items = []\<rparr>"

text \<open>
  Which object a \<^verbatim>\<open>return\<close> of the reducer hands back: the \<^verbatim>\<open>state\<close> argument itself,
  the module constant \<^verbatim>\<open>initialCartState\<close>, or an object literal built by the call.
\<close>

datatype returned =
    The_state
  | The_initialCartState
  | Fresh cart_state

text \<open>\<^verbatim>\<open>typeof v !== 'string' || !v\<close>\<close>

fun bad_string :: "jsval \<Rightarrow> bool" where
  "bad_string (JStr s) = (s = [])"
| "bad_string _ = True"

text \<open>\<^verbatim>\<open>typeof v !== 'number' || isNaN(v) || v < 0\<close>\<close>

fun bad_price :: "jsval \<Rightarrow> bool" where
  "bad_price (JNum n) = (isNaN n \<or> num_less n (Fin 0))"
| "bad_price _ = True"

text \<open>
  The part of the ADD_ITEM guard that reads \<^verbatim>\<open>item\<close>:
  \<^verbatim>\<open>!item || typeof item.productId !== 'string' || !item.productId || typeof item.name !== 'string'
  || !item.name || typeof item.price !== 'number' || isNaN(item.price) || item.price < 0\<close>.
  The property reads happen only behind \<^verbatim>\<open>!item\<close>.
\<close>

definition invalid_item :: "jsval \<Rightarrow> error + bool" where
  "invalid_item item =
     (if \<not> truthy item then Inr True
      else bind_res (get_prop item ''productId'') (\<lambda>productId.
           bind_res (get_prop item ''name'') (\<lambda>name.
           bind_res (get_prop item ''price'') (\<lambda>price.
             Inr (bad_string productId \<or> bad_string name \<or> bad_price price)))))"

text \<open>\<^verbatim>\<open>${state.storeId}\<close> inside a template string.\<close>

definition show_storeId :: "string option \<Rightarrow> string" where
  "show_storeId s = (case s of None \<Rightarrow> ''null'' | Some x \<Rightarrow> x)"

text \<open>
  ADD_ITEM once the payload is validated (lines 78 to 112); \<open>item\<close> holds the properties
  of the payload's item and \<open>sid\<close> the payload's store. The comparison
  \<^verbatim>\<open>cartItem.productId === item.productId\<close> has a string on its right, so strict
  equality is equality of values.
\<close>

definition ADD_ITEM :: "string \<Rightarrow> cart_state \<Rightarrow> obj \<Rightarrow> string \<Rightarrow> returned \<times> diag list" where
  "ADD_ITEM node_env state item sid =
     (if storeId state \<noteq> None \<and> storeId state \<noteq> Some sid then
        (Fresh \<lparr>storeId = Some sid, items = [with_quantity item (JNum (Fin 1))]\<rparr>,
         if node_env = ''development''
         then [Warn (''[CartContext] Adding item from different store ('' @ sid
                     @ ''). Clearing cart from store '' @ show_storeId (storeId state) @ ''.'') []]
         else [])
      else
        (let newStoreId = (case storeId state of None \<Rightarrow> sid | Some cur \<Rightarrow> cur);
             existingItemIndex =
               findIndex (\<lambda>cartItem. field cartItem ''productId'' = field item ''productId'')
                 (items state);
             newItemsArray =
               (if 0 \<le> existingItemIndex
                then map_index (\<lambda>cartItem index.
                       if int index = existingItemIndex
                       then with_quantity cartItem (plus_one (field cartItem ''quantity''))
                       else cartItem) (items state)
                else items state @ [with_quantity item (JNum (Fin 1))])
         in (Fresh \<lparr>storeId = Some newStoreId, items = newItemsArray\<rparr>, [])))"

text \<open>
  REMOVE_ITEM once the payload is validated (lines 123 to 130), also the branch of
  UPDATE_QUANTITY for a quantity that floors to zero or less (lines 145 to 150).
\<close>

definition remove_from :: "cart_state \<Rightarrow> string \<Rightarrow> returned \<times> diag list" where
  "remove_from state productId =
     (let newItems = filter (\<lambda>item. field item ''productId'' \<noteq> JStr productId) (items state)
      in if length newItems = 0 then (The_initialCartState, [])
         else (Fresh (state\<lparr>items := newItems\<rparr>), []))"

text \<open>UPDATE_QUANTITY once the payload is validated (lines 141 to 171).\<close>

definition UPDATE_QUANTITY ::
  "string \<Rightarrow> cart_state \<Rightarrow> string \<Rightarrow> jsnum \<Rightarrow> returned \<times> diag list" where
  "UPDATE_QUANTITY node_env state productId quantity =
     (let integerQuantity = Math_floor quantity in
      if num_le integerQuantity (Fin 0) then
        (let newItems = filter (\<lambda>item. field item ''productId'' \<noteq> JStr productId) (items state)
         in if length newItems = 0 then (The_initialCartState, [])
            else (Fresh (state\<lparr>items := newItems\<rparr>), []))
      else
        (let existingItemIndex =
               findIndex (\<lambda>item. field item ''productId'' = JStr productId) (items state)
         in if 0 \<le> existingItemIndex then
              (Fresh (state\<lparr>items :=
                 map_index (\<lambda>item index.
                   if int index = existingItemIndex
                   then with_quantity item (JNum integerQuantity)
                   else item) (items state)\<rparr>), [])
            else
              (The_state,
               if node_env = ''development''
               then [Warn (''[CartContext] UPDATE_QUANTITY: Item with productId '' @ productId
                           @ '' not found in cart.'') []]
               else [])))"

text \<open>
  The reducer. \<open>node_env\<close> is \<^verbatim>\<open>process.env.NODE_ENV\<close>. The guards
  \<^verbatim>\<open>typeof x !== 'string' || !x\<close> and \<^verbatim>\<open>typeof q !== 'number' || isNaN(q)\<close> are the
  case distinctions on the value read from the payload.
\<close>

definition cartReducer :: "string \<Rightarrow> cart_state \<Rightarrow> action \<Rightarrow> error + returned \<times> diag list" where
  "cartReducer node_env state action =
     (if type action = ''ADD_ITEM'' then
        (let p = nullish (payload action) (JObj []) in
         bind_res (get_prop p ''item'') (\<lambda>item.
         bind_res (get_prop p ''storeId'') (\<lambda>sid.
         bind_res (invalid_item item) (\<lambda>bad.
           case sid of
             JStr s \<Rightarrow>
               if bad \<or> s = []
               then Inr (The_state,
                         [Warn ''[CartContext] Invalid ADD_ITEM payload:'' [payload action]])
               else Inr (ADD_ITEM node_env state (own_props item) s)
           | _ \<Rightarrow> Inr (The_state,
                     [Warn ''[CartContext] Invalid ADD_ITEM payload:'' [payload action]])))))
      else if type action = ''REMOVE_ITEM'' then
        (let p = nullish (payload action) (JObj []) in
         bind_res (get_prop p ''productId'') (\<lambda>productId.
           case productId of
             JStr s \<Rightarrow>
               if s = []
               then Inr (The_state,
                         [Warn ''[CartContext] Invalid REMOVE_ITEM payload:'' [payload action]])
               else Inr (remove_from state s)
           | _ \<Rightarrow> Inr (The_state,
                     [Warn ''[CartContext] Invalid REMOVE_ITEM payload:'' [payload action]])))
      else if type action = ''UPDATE_QUANTITY'' then
        (let p = nullish (payload action) (JObj []) in
         bind_res (get_prop p ''productId'') (\<lambda>productId.
         bind_res (get_prop p ''quantity'') (\<lambda>quantity.
           case (productId, quantity) of
             (JStr s, JNum q) \<Rightarrow>
               if s = [] \<or> isNaN q
               then Inr (The_state,
                         [Warn ''[CartContext] Invalid UPDATE_QUANTITY payload:'' [payload action]])
               else Inr (UPDATE_QUANTITY node_env state s q)
           | _ \<Rightarrow> Inr (The_state,
                     [Warn ''[CartContext] Invalid UPDATE_QUANTITY payload:'' [payload action]]))))
      else if type action = ''CLEAR_CART'' then Inr (The_initialCartState, [])
      else Inl (Error (''[CartContext] Unhandled action type: '' @ type action)))"

text \<open>
  \<^verbatim>\<open>useReducer\<close>: a dispatch replaces the state by the object the reducer returned; a
  throw of the reducer leaves the dispatch.
\<close>

definition deref :: "cart_state \<Rightarrow> returned \<Rightarrow> cart_state" where
  "deref state r =
     (case r of The_state \<Rightarrow> state | The_initialCartState \<Rightarrow> initialCartState | Fresh s \<Rightarrow> s)"

definition dispatch :: "string \<Rightarrow> cart_state \<Rightarrow> action \<Rightarrow> error + cart_state" where
  "dispatch node_env state action =
     bind_res (cartReducer node_env state action) (\<lambda>(r, warnings). Inr (deref state r))"

fun dispatch_all :: "string \<Rightarrow> cart_state \<Rightarrow> action list \<Rightarrow> error + cart_state" where
  "dispatch_all node_env state [] = Inr state"
| "dispatch_all node_env state (a # as) =
     bind_res (dispatch node_env state a) (\<lambda>state'. dispatch_all node_env state' as)"

section \<open>The total of \<^verbatim>\<open>CartView\<close>\<close>




section \<open>Notions of the specification\<close>

text \<open>
  A valid payload in the words of the specification: identifiers are non-empty strings,
  a price is a number that is at least 0, a quantity is a number other than NaN.
\<close>

fun nonempty_string :: "jsval \<Rightarrow> bool" where
  "nonempty_string (JStr s) = (s \<noteq> [])"
| "nonempty_string _ = False"

fun nonneg_number :: "jsval \<Rightarrow> bool" where
  "nonneg_number (JNum n) = num_le (Fin 0) n"
| "nonneg_number _ = False"

fun proper_number :: "jsval \<Rightarrow> bool" where
  "proper_number (JNum n) = (n \<noteq> NaN)"
| "proper_number _ = False"

definition valid_item :: "obj \<Rightarrow> bool" where
  "valid_item fs \<longleftrightarrow>
     nonempty_string (field fs ''productId'') \<and> nonempty_string (field fs ''name'')
     \<and> nonneg_number (field fs ''price'')"

definition wellformed_ADD_ITEM :: "jsval \<Rightarrow> bool" where
  "wellformed_ADD_ITEM p =
     (case p of
        JObj ps \<Rightarrow>
          (case field ps ''item'' of JObj fs \<Rightarrow> valid_item fs | _ \<Rightarrow> False)
          \<and> nonempty_string (field ps ''storeId'')
      | _ \<Rightarrow> False)"

definition wellformed_REMOVE_ITEM :: "jsval \<Rightarrow> bool" where
  "wellformed_REMOVE_ITEM p =
     (case p of JObj ps \<Rightarrow> nonempty_string (field ps ''productId'') | _ \<Rightarrow> False)"

definition wellformed_UPDATE_QUANTITY :: "jsval \<Rightarrow> bool" where
  "wellformed_UPDATE_QUANTITY p =
     (case p of
        JObj ps \<Rightarrow> nonempty_string (field ps ''productId'') \<and> proper_number (field ps ''quantity'')
      | _ \<Rightarrow> False)"

text \<open>
  The reducer handed back the very object it was given. (It can also hand back the
  constant \<^verbatim>\<open>initialCartState\<close>, which is the argument only when the cart is still the
  initial object; that case is kept apart.)
\<close>

definition same_reference :: "error + returned \<times> diag list \<Rightarrow> bool" where
  "same_reference r = (case r of Inr (The_state, w) \<Rightarrow> True | _ \<Rightarrow> False)"

text \<open>
  The invariant of the data model: the cart has a store exactly when it has items, every
  quantity satisfies \<open>Q\<close>, every price is a number that is at least 0, and no two items
  share a productId. The specification asks for \<open>Q = positive_integer\<close>.
\<close>

fun positive_integer :: "jsval \<Rightarrow> bool" where
  "positive_integer (JNum n) = (Number_isInteger n \<and> num_le (Fin 1) n)"
| "positive_integer _ = False"

fun positive_integer_or_infinity :: "jsval \<Rightarrow> bool" where
  "positive_integer_or_infinity (JNum n) =
     (n = PosInf \<or> (Number_isInteger n \<and> num_le (Fin 1) n))"
| "positive_integer_or_infinity _ = False"

fun bounded_positive_integer :: "jsval \<Rightarrow> bool" where
  "bounded_positive_integer (JNum n) =
     (Number_isInteger n \<and> num_le (Fin 1) n \<and> num_le n (Fin Number_MAX_VALUE))"
| "bounded_positive_integer _ = False"

definition cart_inv :: "(jsval \<Rightarrow> bool) \<Rightarrow> cart_state \<Rightarrow> bool" where
  "cart_inv Q s \<longleftrightarrow>
     (storeId s = None \<longleftrightarrow> items s = [])
     \<and> (\<forall>it\<in>set (items s). Q (field it ''quantity''))
     \<and> (\<forall>it\<in>set (items s). nonneg_number (field it ''price''))
     \<and> distinct (map (\<lambda>it. field it ''productId'') (items s))"

definition cart_invariant :: "cart_state \<Rightarrow> bool" where
  "cart_invariant = cart_inv positive_integer"

text \<open>
  An UPDATE_QUANTITY action whose payload carries a quantity above \<^verbatim>\<open>Number.MAX_VALUE\<close>.
  In JavaScript the only such number is \<^verbatim>\<open>Infinity\<close>.
\<close>

definition infinite_quantity :: "action \<Rightarrow> bool" where
  "infinite_quantity a \<longleftrightarrow>
     type a = ''UPDATE_QUANTITY''
     \<and> (case payload a of
          JObj ps \<Rightarrow>
            (case field ps ''quantity'' of
               JNum q \<Rightarrow> num_less (Fin Number_MAX_VALUE) q
             | _ \<Rightarrow> False)
        | _ \<Rightarrow> False)"








text \<open>
  The action object that each callback of \<^verbatim>\<open>CartProvider\<close> passes to \<^verbatim>\<open>dispatch\<close>
  (the callbacks' own guards come before the dispatch and are not part of it).
\<close>

definition addItem_action :: "jsval \<Rightarrow> jsval \<Rightarrow> action" where
  "addItem_action item sid =
     \<lparr>type = ''ADD_ITEM'', payload = JObj [(''item'', item), (''storeId'', sid)]\<rparr>"

definition removeItem_action :: "jsval \<Rightarrow> action" where
  "removeItem_action productId =
     \<lparr>type = ''REMOVE_ITEM'', payload = JObj [(''productId'', productId)]\<rparr>"

definition updateQuantity_action :: "jsval \<Rightarrow> jsval \<Rightarrow> action" where
  "updateQuantity_action productId quantity =
     \<lparr>type = ''UPDATE_QUANTITY'',
      payload = JObj [(''productId'', productId), (''quantity'', quantity)]\<rparr>"

section \<open>Example carts\<close>

text \<open>The items and carts of the scenario in the specification's testable properties.\<close>

definition milk :: obj where
  "milk = [(''productId'', JStr ''milk''), (''name'', JStr ''Milk''), (''price'', JNum (Fin 30))]"

definition soap :: obj where
  "soap = [(''productId'', JStr ''soap''), (''name'', JStr ''Soap''), (''price'', JNum (Fin 10))]"

definition cartA :: cart_state where
  "cartA = \<lparr>storeId = Some ''storeA'', items = [with_quantity milk (JNum (Fin 2))]\<rparr>"


text \<open>Milk under another name and price; milk at a negative price; an item priced \<^verbatim>\<open>Infinity\<close>.\<close>

definition oat_milk :: obj where
  "oat_milk =
     [(''productId'', JStr ''milk''), (''name'', JStr ''Oat milk''), (''price'', JNum (Fin 99))]"

definition free_milk :: obj where
  "free_milk =
     [(''productId'', JStr ''milk''), (''name'', JStr ''Milk''), (''price'', JNum (Fin (- 1)))]"


section \<open>Basic facts\<close>

subsection \<open>Rounding to a double\<close>

lemma ilog2_bounds:
  assumes "0 < x"
  shows "2 powi (ilog2 x) \<le> x" and "x < 2 powi (ilog2 x + 1)"
proof -
  have "2 powi (ilog2 x) \<le> x \<and> x < 2 powi (ilog2 x + 1)"
  proof (cases "1 \<le> x")
    case True
    define n where "n = \<lfloor>x\<rfloor>"
    have n: "1 \<le> n" using True by (simp add: n_def le_floor_iff)
    then have b: "2 ^ nat (bitlen n - 1) \<le> n" "n < 2 ^ nat (bitlen n)"
      using bitlen_bounds [of n] by simp_all
    have b1: "1 \<le> bitlen n" using n by (simp add: bitlen_alt_def)
    have e: "ilog2 x = bitlen n - 1" using True by (simp add: ilog2_def n_def)
    have "rat_of_int (2 ^ nat (bitlen n - 1)) \<le> of_int n" using b(1) by (simp only: of_int_le_iff)
    also have "\<dots> \<le> x" by (simp add: n_def)
    finally have lo: "2 powi (bitlen n - 1) \<le> x" using b1 by (simp add: power_int_def)
    have "x < of_int (n + 1)" using floor_correct [of x] by (simp add: n_def)
    also have "\<dots> \<le> rat_of_int (2 ^ nat (bitlen n))" using b(2) by (simp only: of_int_le_iff)
    finally have hi: "x < 2 powi (bitlen n)" using b1 by (simp add: power_int_def)
    show ?thesis using lo hi e by simp
  next
    case False
    define y where "y = 1 / x"
    have y: "1 < y" using False assms by (simp add: y_def)
    define m where "m = \<lceil>y\<rceil> - 1"
    have m: "1 \<le> m" using y by (simp add: m_def)
    then have b: "2 ^ nat (bitlen m - 1) \<le> m" "m < 2 ^ nat (bitlen m)"
      using bitlen_bounds [of m] by simp_all
    have b1: "1 \<le> bitlen m" using m by (simp add: bitlen_alt_def)
    have e: "ilog2 x = - bitlen m" using False by (simp add: ilog2_def m_def y_def)
    have "y \<le> of_int (m + 1)" using ceiling_correct [of y] by (simp add: m_def)
    also have "\<dots> \<le> rat_of_int (2 ^ nat (bitlen m))" using b(2) by (simp only: of_int_le_iff)
    finally have "y \<le> 2 ^ nat (bitlen m)" by simp
    then have lo: "2 powi (- bitlen m) \<le> x"
      using assms b1 by (simp add: power_int_def y_def field_simps)
    have "rat_of_int (2 ^ nat (bitlen m - 1)) \<le> of_int m" using b(1) by (simp only: of_int_le_iff)
    also have "\<dots> < y" using ceiling_correct [of y] by (simp add: m_def)
    finally have "2 ^ nat (bitlen m - 1) < y" by simp
    then have hi: "x < 2 powi (- bitlen m + 1)"
      using assms b1 False
      by (cases "bitlen m = 1") (simp_all add: power_int_def y_def field_simps nat_diff_distrib)
    show ?thesis using lo hi e by simp
  qed
  then show "2 powi (ilog2 x) \<le> x" and "x < 2 powi (ilog2 x + 1)" by simp_all
qed


lemma pow2_less_D: "(2::rat) powi a < 2 powi b \<Longrightarrow> a < b"
  using power_int_increasing [of b a "2::rat"] by (cases "a < b") simp_all

lemma pow2_le_D: "(2::rat) powi a \<le> 2 powi b \<Longrightarrow> a \<le> b"
  using power_int_strict_increasing [of b a "2::rat"] by (cases "a \<le> b") simp_all

lemma ilog2_unique:
  assumes "0 < x" and "2 powi e \<le> x" and "x < 2 powi (e + 1)"
  shows "ilog2 x = e"
proof -
  have "(2::rat) powi (ilog2 x) < 2 powi (e + 1)"
    using ilog2_bounds(1) [OF assms(1)] assms(3) by simp
  then have up: "ilog2 x < e + 1" by (rule pow2_less_D)
  have "(2::rat) powi e < 2 powi (ilog2 x + 1)"
    using ilog2_bounds(2) [OF assms(1)] assms(2) by simp
  then have "e < ilog2 x + 1" by (rule pow2_less_D)
  with up show ?thesis by simp
qed

lemma quantum_pos: "0 < quantum x"
  by (simp add: quantum_def)

lemma rhe_of_int [simp]: "round_half_even (of_int k) = k"
  by (simp add: round_half_even_def)

lemma rhe_ge_floor: "\<lfloor>m\<rfloor> \<le> round_half_even m"
  by (simp add: round_half_even_def Let_def)

lemma rhe_le_floor: "round_half_even m \<le> \<lfloor>m\<rfloor> + 1"
  by (simp add: round_half_even_def Let_def)


lemma rhe_le_int:
  assumes "m < of_int K"
  shows "round_half_even m \<le> K"
proof -
  have "\<lfloor>m\<rfloor> < K" using assms by (simp add: floor_less_iff)
  with rhe_le_floor [of m] show ?thesis by linarith
qed

lemma rhe_ge_int:
  assumes "of_int K \<le> m"
  shows "K \<le> round_half_even m"
proof -
  have "K \<le> \<lfloor>m\<rfloor>" using assms by (simp add: le_floor_iff)
  with rhe_ge_floor [of m] show ?thesis by linarith
qed

lemma rhe_le_half:
  assumes "m < of_int K - 1 / 2"
  shows "round_half_even m \<le> K - 1"
proof (cases "\<lfloor>m\<rfloor> = K - 1")
  case True
  then have "m - of_int \<lfloor>m\<rfloor> < 1 / 2" using assms by simp
  then show ?thesis using True by (simp add: round_half_even_def Let_def)
next
  case False
  have "m < of_int K" using assms by simp
  then have "\<lfloor>m\<rfloor> < K" by (simp add: floor_less_iff)
  with False have "\<lfloor>m\<rfloor> + 1 \<le> K - 1" by simp
  with rhe_le_floor [of m] show ?thesis by simp
qed


lemma round_pos_exact:
  assumes "x < overflow_threshold" and "x = of_int k * quantum x"
  shows "round_pos x = Fin x"
proof -
  have "x / quantum x = of_int k"
    using assms(2) quantum_pos [of x] by (metis less_irrefl nonzero_mult_div_cancel_right)
  then show ?thesis using assms by (simp add: round_pos_def)
qed

lemma small_below_threshold: "x \<le> 2 ^ 53 \<Longrightarrow> x < overflow_threshold"
  by (simp add: overflow_threshold_def)

lemma round_pos_int:
  assumes "1 \<le> n" and "n \<le> 2 ^ 53"
  shows "round_pos (of_int n) = Fin (of_int n)"
proof -
  define x where "x = rat_of_int n"
  define e where "e = ilog2 x"
  have x1: "1 \<le> x" and x53: "x \<le> 2 ^ 53"
    using assms by (simp_all add: x_def)
  then have pos: "0 < x" by simp
  have lo: "2 powi e \<le> x" and hi: "x < 2 powi (e + 1)"
    using ilog2_bounds [OF pos] by (simp_all add: e_def)
  have "(2::rat) powi 0 < 2 powi (e + 1)" using x1 hi by simp
  then have e0: "0 \<le> e" using pow2_less_D by fastforce
  have "(2::rat) powi e \<le> 2 powi 53" using lo x53 by simp
  then have e53: "e \<le> 53" by (rule pow2_le_D)
  have q: "quantum x = 2 powi (e - 52)" using e0 by (simp add: quantum_def e_def)
  have "\<exists>k. x = of_int k * quantum x"
  proof (cases "e \<le> 52")
    case True
    define j where "j = nat (52 - e)"
    have "(2::rat) powi (e - 52) = 1 / 2 ^ j"
      using True by (simp add: j_def power_int_def field_simps)
    then have "quantum x = 1 / 2 ^ j" using q by simp
    then have "of_int (n * 2 ^ j) * quantum x = x" by (simp add: x_def)
    then have "x = of_int (n * 2 ^ j) * quantum x" by simp
    then show ?thesis by blast
  next
    case False
    with e53 have e: "e = 53" by simp
    with lo x53 have "x = 2 ^ 53" by simp
    moreover have "quantum x = 2" using q e by simp
    ultimately have "x = of_int (2 ^ 52) * quantum x" by simp
    then show ?thesis by blast
  qed
  then obtain k where "x = of_int k * quantum x" by blast
  with small_below_threshold [OF x53] show ?thesis
    unfolding x_def by (rule round_pos_exact)
qed

lemma round_double_int:
  assumes "\<bar>n\<bar> \<le> 2 ^ 53"
  shows "round_double (of_int n) = Fin (of_int n)"
proof -
  consider "n = 0" | "0 < n" | "n < 0" by linarith
  then show ?thesis
  proof cases
    case 1
    then show ?thesis by (simp add: round_double_def)
  next
    case 2
    with assms show ?thesis by (simp add: round_double_def round_pos_int)
  next
    case 3
    with assms have "round_pos (of_int (- n)) = Fin (of_int (- n))"
      by (intro round_pos_int) simp_all
    with 3 show ?thesis by (simp add: round_double_def)
  qed
qed



lemma round_pos_integer:
  assumes "1 \<le> n"
  shows "round_pos (of_int n) = PosInf \<or> (\<exists>y. round_pos (of_int n) = Fin (of_int y) \<and> 1 \<le> y)"
proof (cases "n \<le> 2 ^ 53")
  case True
  with assms show ?thesis using round_pos_int [of n] by blast
next
  case False
  define x where "x = rat_of_int n"
  define e where "e = ilog2 x"
  have big: "2 ^ 53 < x" using False by (simp add: x_def)
  then have pos: "0 < x" by (simp add: less_trans [of 0 "2 ^ 53"])
  have lo: "2 powi e \<le> x" and hi: "x < 2 powi (e + 1)"
    using ilog2_bounds [OF pos] by (simp_all add: e_def)
  have "(2::rat) powi 53 < 2 powi (e + 1)" using big hi by simp
  then have e53: "53 \<le> e" using pow2_less_D by fastforce
  define k where "k = nat (e - 52)"
  have q: "quantum x = of_int (2 ^ k)"
    using e53 by (simp add: quantum_def e_def [symmetric] k_def power_int_def)
  have "(2::rat) powi e = 2 powi 52 * 2 powi (e - 52)"
    using power_int_add [of "2::rat" 52 "e - 52"] by simp
  moreover have "quantum x = 2 powi (e - 52)"
    using e53 by (simp add: quantum_def e_def [symmetric])
  ultimately have "2 ^ 52 * quantum x \<le> x" using lo by simp
  then have "rat_of_int (2 ^ 52) \<le> x / quantum x"
    using quantum_pos [of x] by (simp add: field_simps)
  then have "2 ^ 52 \<le> round_half_even (x / quantum x)" by (rule rhe_ge_int)
  then have "1 \<le> round_half_even (x / quantum x)" by simp
  moreover have "(1::int) \<le> 2 ^ k" by simp
  ultimately have "1 * 1 \<le> round_half_even (x / quantum x) * 2 ^ k"
    by (intro mult_mono) simp_all
  then have one: "1 \<le> round_half_even (x / quantum x) * 2 ^ k" by simp
  show ?thesis
  proof (cases "overflow_threshold \<le> x")
    case True
    then show ?thesis by (simp add: round_pos_def x_def)
  next
    case False
    then have "round_pos x = Fin (of_int (round_half_even (x / quantum x) * 2 ^ k))"
      by (simp add: round_pos_def q)
    with one show ?thesis unfolding x_def by blast
  qed
qed


lemma MAX_below_threshold: "Number_MAX_VALUE < overflow_threshold"
  by (simp add: Number_MAX_VALUE_def overflow_threshold_def)

lemma round_pos_le_MAX:
  assumes "0 < x" and "round_pos x = Fin y"
  shows "y \<le> Number_MAX_VALUE"
proof -
  define e where "e = ilog2 x"
  define e' where "e' = max e (- 1022)"
  define m where "m = x / quantum x"
  have below: "x < overflow_threshold" using assms(2) by (simp add: round_pos_def split: if_splits)
  have y: "y = of_int (round_half_even m) * quantum x"
    using assms(2) below by (simp add: round_pos_def m_def)
  have lo: "2 powi e \<le> x" and hi: "x < 2 powi (e + 1)"
    using ilog2_bounds [OF assms(1)] by (simp_all add: e_def)
  have q: "quantum x = 2 powi (e' - 52)" by (simp add: quantum_def e_def e'_def)
  have "x < 2 powi 1024" using below by (simp add: overflow_threshold_def)
  with lo have "(2::rat) powi e < 2 powi 1024" by (rule le_less_trans)
  then have e1023: "e \<le> 1023" using pow2_less_D by fastforce
  show ?thesis
  proof (cases "e = 1023")
    case True
    then have q': "quantum x = 2 ^ 971" using q by (simp add: e'_def)
    have "m < of_int (2 ^ 53) - 1 / 2"
      using below by (simp add: m_def q' overflow_threshold_def field_simps)
    then have "round_half_even m \<le> 2 ^ 53 - 1" by (rule rhe_le_half)
    then have "rat_of_int (round_half_even m) \<le> of_int (2 ^ 53 - 1)" by (simp only: of_int_le_iff)
    then have "rat_of_int (round_half_even m) * 2 ^ 971 \<le> of_int (2 ^ 53 - 1) * 2 ^ 971"
      by (intro mult_right_mono) simp_all
    also have "\<dots> = Number_MAX_VALUE" by (simp add: Number_MAX_VALUE_def)
    finally show ?thesis by (simp add: y q')
  next
    case False
    with e1023 have e1022: "e' \<le> 1022" by (simp add: e'_def)
    have ee: "e \<le> e'" by (simp add: e'_def)
    have "2 powi (e + 1) = (2::rat) powi (e - e' + 53) * 2 powi (e' - 52)"
      using power_int_add [of "2::rat" "e - e' + 53" "e' - 52"] by simp
    with hi have "m < 2 powi (e - e' + 53)"
      using quantum_pos [of x] by (simp add: m_def q field_simps)
    also have "\<dots> \<le> 2 powi 53" using ee by (intro power_int_increasing) simp_all
    finally have "m < of_int (2 ^ 53)" by simp
    then have "round_half_even m \<le> 2 ^ 53" by (rule rhe_le_int)
    then have "rat_of_int (round_half_even m) \<le> of_int (2 ^ 53)" by (simp only: of_int_le_iff)
    then have "rat_of_int (round_half_even m) * quantum x \<le> of_int (2 ^ 53) * quantum x"
      using quantum_pos [of x] by (intro mult_right_mono) simp_all
    also have "\<dots> = 2 powi (e' + 1)"
      using power_int_add [of "2::rat" 53 "e' - 52"] by (simp add: q add.commute)
    also have "\<dots> \<le> 2 powi 1023" using e1022 by (intro power_int_increasing) simp_all
    also have "\<dots> \<le> Number_MAX_VALUE" by (simp add: Number_MAX_VALUE_def)
    finally show ?thesis by (simp add: y)
  qed
qed

lemma round_double_0 [simp]: "round_double 0 = Fin 0"
  by (simp add: round_double_def)

lemma round_double_1 [simp]: "round_double 1 = Fin 1"
  using round_double_int [of 1] by simp

lemma round_double_numeral:
  "numeral k \<le> (2::int) ^ 53 \<Longrightarrow> round_double (numeral k) = Fin (numeral k)"
  using round_double_int [of "numeral k"] by simp




subsection \<open>Values\<close>

lemma field_with_quantity:
  "field (with_quantity fs v) k = (if k = ''quantity'' then v else field fs k)"
  by (simp add: field_def with_quantity_def update_conv')

lemma with_quantity_twice [simp]:
  "with_quantity (with_quantity fs v) w = with_quantity fs w"
  by (simp add: with_quantity_def)


lemma get_prop_nullish:
  "get_prop (nullish v (JObj [])) k = Inr (case v of JObj fs \<Rightarrow> field fs k | _ \<Rightarrow> JUndefined)"
  by (cases v) (simp_all add: field_def)

lemma bad_string_iff: "bad_string v \<longleftrightarrow> \<not> nonempty_string v"
  by (cases v) simp_all

lemma bad_price_iff: "bad_price v \<longleftrightarrow> \<not> nonneg_number v"
proof (cases v)
  case (JNum n)
  then show ?thesis by (cases n) auto
qed simp_all

lemma nonempty_stringE: "nonempty_string v \<Longrightarrow> \<exists>s. v = JStr s \<and> s \<noteq> []"
  by (cases v) simp_all

subsection \<open>The guards never throw\<close>

lemma invalid_item_total: "\<exists>b. invalid_item item = Inr b"
  by (cases item) (auto simp: invalid_item_def bind_res_def)

lemma invalid_item_object: "invalid_item item = Inr False \<Longrightarrow> \<exists>fs. item = JObj fs"
  by (cases item) (simp_all add: invalid_item_def bind_res_def split: if_splits)

lemma invalid_item_valid: "invalid_item (JObj fs) = Inr (\<not> valid_item fs)"
  by (simp add: invalid_item_def bind_res_def valid_item_def bad_string_iff bad_price_iff)

lemma reducer_ADD_ITEM_accepts:
  assumes "field ps ''item'' = JObj fs" and "valid_item fs"
    and "field ps ''storeId'' = JStr sid" and "sid \<noteq> []"
  shows "cartReducer env s \<lparr>type = ''ADD_ITEM'', payload = JObj ps\<rparr> = Inr (ADD_ITEM env s fs sid)"
  using assms by (simp add: cartReducer_def bind_res_def invalid_item_valid)

lemma reducer_ADD_ITEM_rejects:
  assumes "\<not> wellformed_ADD_ITEM p"
  shows "cartReducer env s \<lparr>type = ''ADD_ITEM'', payload = p\<rparr>
           = Inr (The_state, [Warn ''[CartContext] Invalid ADD_ITEM payload:'' [p]])"
proof (cases p)
  case (JObj ps)
  show ?thesis
  proof (cases "field ps ''item''")
    case (JObj fs)
    with assms \<open>p = JObj ps\<close> show ?thesis
      by (cases "field ps ''storeId''")
         (auto simp: cartReducer_def bind_res_def invalid_item_valid wellformed_ADD_ITEM_def
            Let_def)
  qed (use \<open>p = JObj ps\<close> in
        \<open>simp_all add: cartReducer_def bind_res_def invalid_item_def Let_def
           split: jsval.splits\<close>)
qed (simp_all add: cartReducer_def bind_res_def invalid_item_def field_def Let_def)

lemma reducer_REMOVE_ITEM_accepts:
  assumes "field ps ''productId'' = JStr pid" and "pid \<noteq> []"
  shows "cartReducer env s \<lparr>type = ''REMOVE_ITEM'', payload = JObj ps\<rparr> = Inr (remove_from s pid)"
  using assms by (simp add: cartReducer_def bind_res_def)

lemma reducer_REMOVE_ITEM_rejects:
  assumes "\<not> wellformed_REMOVE_ITEM p"
  shows "cartReducer env s \<lparr>type = ''REMOVE_ITEM'', payload = p\<rparr>
           = Inr (The_state, [Warn ''[CartContext] Invalid REMOVE_ITEM payload:'' [p]])"
proof (cases p)
  case (JObj ps)
  with assms show ?thesis
    by (cases "field ps ''productId''")
       (simp_all add: cartReducer_def bind_res_def wellformed_REMOVE_ITEM_def)
qed (simp_all add: cartReducer_def bind_res_def field_def)

lemma reducer_UPDATE_QUANTITY_accepts:
  assumes "field ps ''productId'' = JStr pid" and "pid \<noteq> []"
    and "field ps ''quantity'' = JNum q" and "q \<noteq> NaN"
  shows "cartReducer env s \<lparr>type = ''UPDATE_QUANTITY'', payload = JObj ps\<rparr>
           = Inr (UPDATE_QUANTITY env s pid q)"
  using assms by (cases q) (simp_all add: cartReducer_def bind_res_def)

lemma reducer_UPDATE_QUANTITY_rejects:
  assumes "\<not> wellformed_UPDATE_QUANTITY p"
  shows "cartReducer env s \<lparr>type = ''UPDATE_QUANTITY'', payload = p\<rparr>
           = Inr (The_state, [Warn ''[CartContext] Invalid UPDATE_QUANTITY payload:'' [p]])"
proof (cases p)
  case (JObj ps)
  show ?thesis
  proof (cases "field ps ''productId''")
    case (JStr pid)
    show ?thesis
    proof (cases "field ps ''quantity''")
      case (JNum q)
      with assms JStr \<open>p = JObj ps\<close> show ?thesis
        by (cases q) (simp_all add: cartReducer_def bind_res_def wellformed_UPDATE_QUANTITY_def)
    qed (use JStr \<open>p = JObj ps\<close> in \<open>simp_all add: cartReducer_def bind_res_def\<close>)
  qed (use \<open>p = JObj ps\<close> in \<open>simp_all add: cartReducer_def bind_res_def\<close>)
qed (simp_all add: cartReducer_def bind_res_def field_def)

lemma wellformed_ADD_ITEM_E:
  assumes "wellformed_ADD_ITEM p"
  obtains ps fs sid where "p = JObj ps" and "field ps ''item'' = JObj fs" and "valid_item fs"
    and "field ps ''storeId'' = JStr sid" and "sid \<noteq> []"
proof -
  from assms obtain ps where p: "p = JObj ps"
    by (cases p) (simp_all add: wellformed_ADD_ITEM_def)
  from assms p obtain fs where "field ps ''item'' = JObj fs" "valid_item fs"
    by (cases "field ps ''item''") (simp_all add: wellformed_ADD_ITEM_def)
  moreover from assms p obtain sid where "field ps ''storeId'' = JStr sid" "sid \<noteq> []"
    using nonempty_stringE by (auto simp: wellformed_ADD_ITEM_def)
  ultimately show ?thesis using p that by blast
qed

lemma wellformed_REMOVE_ITEM_E:
  assumes "wellformed_REMOVE_ITEM p"
  obtains ps pid where "p = JObj ps" and "field ps ''productId'' = JStr pid" and "pid \<noteq> []"
proof -
  from assms obtain ps where p: "p = JObj ps"
    by (cases p) (simp_all add: wellformed_REMOVE_ITEM_def)
  from assms p obtain pid where "field ps ''productId'' = JStr pid" "pid \<noteq> []"
    using nonempty_stringE by (auto simp: wellformed_REMOVE_ITEM_def)
  then show ?thesis using p that by blast
qed

lemma wellformed_UPDATE_QUANTITY_E:
  assumes "wellformed_UPDATE_QUANTITY p"
  obtains ps pid q where "p = JObj ps" and "field ps ''productId'' = JStr pid" and "pid \<noteq> []"
    and "field ps ''quantity'' = JNum q" and "q \<noteq> NaN"
proof -
  from assms obtain ps where p: "p = JObj ps"
    by (cases p) (simp_all add: wellformed_UPDATE_QUANTITY_def)
  from assms p obtain pid where "field ps ''productId'' = JStr pid" "pid \<noteq> []"
    using nonempty_stringE by (auto simp: wellformed_UPDATE_QUANTITY_def)
  moreover from assms p obtain q where "field ps ''quantity'' = JNum q" "q \<noteq> NaN"
    by (cases "field ps ''quantity''") (simp_all add: wellformed_UPDATE_QUANTITY_def)
  ultimately show ?thesis using p that by blast
qed

lemma cartReducer_returns:
  assumes "type a \<in> {''ADD_ITEM'', ''REMOVE_ITEM'', ''UPDATE_QUANTITY'', ''CLEAR_CART''}"
  shows "\<exists>r w. cartReducer env s a = Inr (r, w)"
proof -
  have a: "a = \<lparr>type = type a, payload = payload a\<rparr>" by simp
  consider (add) "type a = ''ADD_ITEM''" | (remove) "type a = ''REMOVE_ITEM''"
    | (update) "type a = ''UPDATE_QUANTITY''" | (clear) "type a = ''CLEAR_CART''"
    using assms by auto
  then show ?thesis
  proof cases
    case add
    show ?thesis
    proof (cases "wellformed_ADD_ITEM (payload a)")
      case False
      from reducer_ADD_ITEM_rejects [OF False, of env s] add a show ?thesis by metis
    next
      case True
      then obtain ps fs sid where "payload a = JObj ps" "field ps ''item'' = JObj fs"
        "valid_item fs" "field ps ''storeId'' = JStr sid" "sid \<noteq> []"
        by (rule wellformed_ADD_ITEM_E)
      with reducer_ADD_ITEM_accepts [of ps fs sid env s] add a show ?thesis
        by (metis surj_pair)
    qed
  next
    case remove
    show ?thesis
    proof (cases "wellformed_REMOVE_ITEM (payload a)")
      case False
      from reducer_REMOVE_ITEM_rejects [OF False, of env s] remove a show ?thesis by metis
    next
      case True
      then obtain ps pid where "payload a = JObj ps" "field ps ''productId'' = JStr pid"
        "pid \<noteq> []"
        by (rule wellformed_REMOVE_ITEM_E)
      with reducer_REMOVE_ITEM_accepts [of ps pid env s] remove a show ?thesis
        by (metis surj_pair)
    qed
  next
    case update
    show ?thesis
    proof (cases "wellformed_UPDATE_QUANTITY (payload a)")
      case False
      from reducer_UPDATE_QUANTITY_rejects [OF False, of env s] update a show ?thesis by metis
    next
      case True
      then obtain ps pid q where "payload a = JObj ps" "field ps ''productId'' = JStr pid"
        "pid \<noteq> []" "field ps ''quantity'' = JNum q" "q \<noteq> NaN"
        by (rule wellformed_UPDATE_QUANTITY_E)
      with reducer_UPDATE_QUANTITY_accepts [of ps pid q env s] update a show ?thesis
        by (metis surj_pair)
    qed
  next
    case clear
    then show ?thesis by (simp add: cartReducer_def)
  qed
qed

lemma dispatch_fst:
  "cartReducer env s a = Inr rw \<Longrightarrow> dispatch env s a = Inr (deref s (fst rw))"
  by (cases rw) (simp add: dispatch_def bind_res_def)

subsection \<open>Searching and mapping an array\<close>

lemma findIndex_from_none:
  "\<forall>x\<in>set xs. \<not> P x \<Longrightarrow> findIndex_from P i xs = - 1"
  by (induction xs arbitrary: i) simp_all

lemma findIndex_from_first:
  "k < length xs \<Longrightarrow> P (xs ! k) \<Longrightarrow> \<forall>j<k. \<not> P (xs ! j) \<Longrightarrow>
   findIndex_from P i xs = int (i + k)"
proof (induction xs arbitrary: i k)
  case Nil
  then show ?case by simp
next
  case (Cons x xs)
  show ?case
  proof (cases k)
    case 0
    with Cons.prems show ?thesis by simp
  next
    case (Suc m)
    from Cons.prems Suc have "\<not> P x" by auto
    moreover from Cons.prems Suc have "findIndex_from P (Suc i) xs = int (Suc i + m)"
      by (intro Cons.IH) auto
    ultimately show ?thesis using Suc by simp
  qed
qed

lemma findIndex_none: "\<forall>x\<in>set xs. \<not> P x \<Longrightarrow> findIndex P xs = - 1"
  by (simp add: findIndex_def findIndex_from_none)

lemma findIndex_first:
  "k < length xs \<Longrightarrow> P (xs ! k) \<Longrightarrow> \<forall>j<k. \<not> P (xs ! j) \<Longrightarrow> findIndex P xs = int k"
  using findIndex_from_first [of k xs P 0] by (simp add: findIndex_def)

lemma first_match_exists:
  assumes "\<exists>x\<in>set xs. P x"
  shows "\<exists>k<length xs. P (xs ! k) \<and> (\<forall>j<k. \<not> P (xs ! j))"
proof -
  from assms have "\<exists>k. k < length xs \<and> P (xs ! k)" by (auto simp: in_set_conv_nth)
  then obtain k where k: "k < length xs \<and> P (xs ! k)"
    and least: "\<And>j. j < length xs \<and> P (xs ! j) \<Longrightarrow> k \<le> j"
    using exists_least_iff [of "\<lambda>k. k < length xs \<and> P (xs ! k)"] by (metis not_less)
  show ?thesis using k least by (metis leD less_trans)
qed

lemma map_from_update:
  "k < length xs \<Longrightarrow>
   map_from (\<lambda>x j. if int j = int (i + k) then g x else x) i xs = xs[k := g (xs ! k)]"
proof (induction xs arbitrary: i k)
  case Nil
  then show ?case by simp
next
  case (Cons x xs)
  have later: "map_from (\<lambda>x j. if int j = int i then g x else x) (Suc i + n) ys = ys" for n ys
    by (induction ys arbitrary: n) (simp_all, metis add_Suc_right)
  show ?case
  proof (cases k)
    case 0
    then show ?thesis using later [of 0 xs] by simp
  next
    case (Suc m)
    with Cons.prems have "m < length xs" by simp
    from Cons.IH [OF this, of "Suc i"] Suc show ?thesis by simp
  qed
qed

lemma map_index_update:
  "k < length xs \<Longrightarrow>
   map_index (\<lambda>x j. if int j = int k then g x else x) xs = xs[k := g (xs ! k)]"
  using map_from_update [of k xs 0 g] by (simp add: map_index_def)

lemma map_index_update_nat:
  "k < length xs \<Longrightarrow>
   map_index (\<lambda>x j. if j = k then g x else x) xs = xs[k := g (xs ! k)]"
  using map_index_update [of k xs g] by simp

lemma filter_absent:
  "\<forall>it\<in>set xs. field it ''productId'' \<noteq> JStr pid \<Longrightarrow>
   filter (\<lambda>item. field item ''productId'' \<noteq> JStr pid) xs = xs"
  by (induction xs) simp_all

subsection \<open>The two outcomes of ADD_ITEM within one store\<close>

lemma ADD_ITEM_merge:
  assumes "storeId s = None \<or> storeId s = Some sid"
    and "k < length (items s)"
    and "field (items s ! k) ''productId'' = field fs ''productId''"
    and "\<forall>j<k. field (items s ! j) ''productId'' \<noteq> field fs ''productId''"
  shows "ADD_ITEM env s fs sid =
           (Fresh \<lparr>storeId = Some sid,
                   items = (items s)[k := with_quantity (items s ! k)
                                            (plus_one (field (items s ! k) ''quantity''))]\<rparr>, [])"
proof -
  have idx: "findIndex (\<lambda>cartItem. field cartItem ''productId'' = field fs ''productId'') (items s)
      = int k"
    using assms(2-4) by (intro findIndex_first) simp_all
  have st: "(case storeId s of None \<Rightarrow> sid | Some cur \<Rightarrow> cur) = sid"
    using assms(1) by auto
  show ?thesis
    unfolding ADD_ITEM_def Let_def idx st using assms(1,2)
    by (cases "storeId s") (simp_all add: map_index_update_nat)
qed

lemma ADD_ITEM_append:
  assumes "storeId s = None \<or> storeId s = Some sid"
    and "\<forall>it\<in>set (items s). field it ''productId'' \<noteq> field fs ''productId''"
  shows "ADD_ITEM env s fs sid =
           (Fresh \<lparr>storeId = Some sid, items = items s @ [with_quantity fs (JNum (Fin 1))]\<rparr>, [])"
proof -
  have idx: "findIndex (\<lambda>cartItem. field cartItem ''productId'' = field fs ''productId'') (items s)
      = - 1"
    using assms(2) by (simp add: findIndex_none)
  have st: "(case storeId s of None \<Rightarrow> sid | Some cur \<Rightarrow> cur) = sid"
    using assms(1) by auto
  show ?thesis
    unfolding ADD_ITEM_def Let_def idx st using assms(1)
    by (cases "storeId s") simp_all
qed

subsection \<open>The examples\<close>

lemma valid_oat_milk: "valid_item oat_milk"
  by (simp add: valid_item_def oat_milk_def field_def)

lemma valid_milk: "valid_item milk"
  by (simp add: valid_item_def milk_def field_def)

lemma valid_soap: "valid_item soap"
  by (simp add: valid_item_def soap_def field_def)

section \<open>Store switch\<close>

text \<open>
  Claim C2. Whenever the cart belongs to a store \<open>x\<close> and a valid ADD_ITEM payload (an item
  with non-empty string productId and name and a numeric price of at least 0) names
  another store \<open>y\<close>, the next state is exactly the cart of store \<open>y\<close> holding one entry:
  its \<^verbatim>\<open>quantity\<close> is 1 and every other property is the payload item's. Nothing of the
  previous items is left.
\<close>

theorem store_switch_replaces:
  assumes "storeId s = Some x" and "x \<noteq> y"
    and "field ps ''item'' = JObj fs" and "valid_item fs"
    and "field ps ''storeId'' = JStr y" and "y \<noteq> []"
  shows "\<exists>e. dispatch env s \<lparr>type = ''ADD_ITEM'', payload = JObj ps\<rparr>
               = Inr \<lparr>storeId = Some y, items = [e]\<rparr>
           \<and> e = with_quantity fs (JNum (Fin 1))
           \<and> field e ''quantity'' = JNum (Fin 1)
           \<and> (\<forall>key. key \<noteq> ''quantity'' \<longrightarrow> field e key = field fs key)"
  using assms
  by (simp add: dispatch_def reducer_ADD_ITEM_accepts bind_res_def ADD_ITEM_def deref_def
        field_with_quantity)

theorem store_switch_replaces_witness:
  "storeId \<lparr>storeId = Some ''storeA'',
            items = [[(''productId'', JStr ''milk''), (''name'', JStr ''Milk''),
                      (''price'', JNum (Fin 30)), (''quantity'', JNum (Fin 2))]]\<rparr> = Some ''storeA''
   \<and> ''storeA'' \<noteq> ''storeB''
   \<and> field [(''item'', JObj soap), (''storeId'', JStr ''storeB'')] ''item'' = JObj soap
   \<and> valid_item soap
   \<and> field [(''item'', JObj soap), (''storeId'', JStr ''storeB'')] ''storeId'' = JStr ''storeB''
   \<and> ''storeB'' \<noteq> []
   \<and> dispatch ''production''
        \<lparr>storeId = Some ''storeA'',
         items = [[(''productId'', JStr ''milk''), (''name'', JStr ''Milk''),
                   (''price'', JNum (Fin 30)), (''quantity'', JNum (Fin 2))]]\<rparr>
        \<lparr>type = ''ADD_ITEM'',
         payload = JObj [(''item'', JObj [(''productId'', JStr ''soap''), (''name'', JStr ''Soap''),
                                         (''price'', JNum (Fin 10))]),
                         (''storeId'', JStr ''storeB'')]\<rparr>
       = Inr \<lparr>storeId = Some ''storeB'',
              items = [[(''productId'', JStr ''soap''), (''name'', JStr ''Soap''),
                        (''price'', JNum (Fin 10)), (''quantity'', JNum (Fin 1))]]\<rparr>"
proof -
  let ?s = "\<lparr>storeId = Some ''storeA'',
             items = [[(''productId'', JStr ''milk''), (''name'', JStr ''Milk''),
                       (''price'', JNum (Fin 30)), (''quantity'', JNum (Fin 2))]]\<rparr>"
  have h1: "storeId ?s = Some ''storeA''" by simp
  have h2: "''storeA'' \<noteq> ''storeB''" by simp
  have h3: "field [(''item'', JObj soap), (''storeId'', JStr ''storeB'')] ''item'' = JObj soap"
    by (simp add: field_def)
  have h5: "field [(''item'', JObj soap), (''storeId'', JStr ''storeB'')] ''storeId'' = JStr ''storeB''"
    by (simp add: field_def)
  have h6: "''storeB'' \<noteq> []" by simp
  from store_switch_replaces [OF h1 h2 h3 valid_soap h5 h6, of "''production''"]
  have "dispatch ''production'' ?s
          \<lparr>type = ''ADD_ITEM'', payload = JObj [(''item'', JObj soap), (''storeId'', JStr ''storeB'')]\<rparr>
        = Inr \<lparr>storeId = Some ''storeB'', items = [with_quantity soap (JNum (Fin 1))]\<rparr>"
    by auto
  then show ?thesis using h1 h3 h5 valid_soap by (simp add: soap_def with_quantity_def)
qed

section \<open>Removal\<close>

text \<open>
  Claim C4. For every state, every non-empty string productId and every numeric quantity
  \<open>q\<close> whose floor is at most 0, UPDATE_QUANTITY returns what REMOVE_ITEM of the same
  productId returns on the same state: the same object (the constant initial state when
  the cart is left empty) and the same diagnostics.
\<close>

theorem update_nonpositive_is_remove:
  assumes "field ps ''productId'' = JStr pid" and "pid \<noteq> []"
    and "field ps ''quantity'' = JNum q" and "num_le (Math_floor q) (Fin 0)"
    and "field ps' ''productId'' = JStr pid"
  shows "cartReducer env s \<lparr>type = ''UPDATE_QUANTITY'', payload = JObj ps\<rparr>
           = cartReducer env s \<lparr>type = ''REMOVE_ITEM'', payload = JObj ps'\<rparr>"
proof -
  from assms(4) have "q \<noteq> NaN" by (cases q) simp_all
  with assms show ?thesis
    by (simp add: reducer_UPDATE_QUANTITY_accepts reducer_REMOVE_ITEM_accepts
          UPDATE_QUANTITY_def remove_from_def)
qed

theorem update_nonpositive_is_remove_witness:
  "field [(''productId'', JStr ''milk''), (''quantity'', JNum (Fin (- 5)))] ''productId'' = JStr ''milk''
   \<and> ''milk'' \<noteq> []
   \<and> field [(''productId'', JStr ''milk''), (''quantity'', JNum (Fin (- 5)))] ''quantity''
       = JNum (Fin (- 5))
   \<and> num_le (Math_floor (Fin (- 5))) (Fin 0)
   \<and> field [(''productId'', JStr ''milk'')] ''productId'' = JStr ''milk''
   \<and> cartReducer ''production'' cartA (updateQuantity_action (JStr ''milk'') (JNum (Fin (- 5))))
       = cartReducer ''production'' cartA (removeItem_action (JStr ''milk''))
   \<and> cartReducer ''production'' cartA (removeItem_action (JStr ''milk''))
       = Inr (The_initialCartState, [])"
proof -
  have h1: "field [(''productId'', JStr ''milk''), (''quantity'', JNum (Fin (- 5)))] ''productId''
      = JStr ''milk''" by (simp add: field_def)
  have h2: "''milk'' \<noteq> []" by simp
  have h3: "field [(''productId'', JStr ''milk''), (''quantity'', JNum (Fin (- 5)))] ''quantity''
      = JNum (Fin (- 5))" by (simp add: field_def)
  have h4: "num_le (Math_floor (Fin (- 5))) (Fin 0)" by simp
  have h5: "field [(''productId'', JStr ''milk'')] ''productId'' = JStr ''milk''"
    by (simp add: field_def)
  have r: "cartReducer ''production'' cartA (removeItem_action (JStr ''milk''))
      = Inr (The_initialCartState, [])"
    by (simp add: removeItem_action_def reducer_REMOVE_ITEM_accepts [OF h5 h2] remove_from_def
          cartA_def milk_def with_quantity_def field_def)
  from update_nonpositive_is_remove [OF h1 h2 h3 h4 h5, of "''production''" cartA]
  show ?thesis using h1 h3 h4 h5 r
    by (simp add: updateQuantity_action_def removeItem_action_def)
qed



section \<open>Unknown actions\<close>

text \<open>
  Claim C8. For every state and every action whose type is none of ADD_ITEM, REMOVE_ITEM,
  UPDATE_QUANTITY and CLEAR_CART, the reducer throws an Error that names the type; it does
  not return a state.
\<close>

theorem unknown_action_throws:
  "type a \<notin> {''ADD_ITEM'', ''REMOVE_ITEM'', ''UPDATE_QUANTITY'', ''CLEAR_CART''} \<Longrightarrow>
   cartReducer env s a = Inl (Error (''[CartContext] Unhandled action type: '' @ type a))"
  by (simp add: cartReducer_def)

theorem unknown_action_throws_witness:
  "type \<lparr>type = ''RESET'', payload = JUndefined\<rparr>
     \<notin> {''ADD_ITEM'', ''REMOVE_ITEM'', ''UPDATE_QUANTITY'', ''CLEAR_CART''}
   \<and> cartReducer ''production'' cartA \<lparr>type = ''RESET'', payload = JUndefined\<rparr>
       = Inl (Error ''[CartContext] Unhandled action type: RESET'')"
proof -
  have h: "type \<lparr>type = ''RESET'', payload = JUndefined\<rparr>
     \<notin> {''ADD_ITEM'', ''REMOVE_ITEM'', ''UPDATE_QUANTITY'', ''CLEAR_CART''}" by simp
  from unknown_action_throws [OF h, of "''production''" cartA] h show ?thesis by simp
qed

section \<open>Adding within one store\<close>

lemma plus_one_integer:
  assumes "- (2 ^ 53) \<le> q" and "q < 2 ^ 53"
  shows "plus_one (JNum (Fin (of_int q))) = JNum (Fin (of_int (q + 1)))"
proof -
  have "\<bar>q + 1\<bar> \<le> 2 ^ 53" using assms by simp
  from round_double_int [OF this] show ?thesis by simp
qed

lemma repeated_add:
  assumes "field ps ''item'' = JObj fs" and "valid_item fs"
    and "field ps ''storeId'' = JStr sid" and "sid \<noteq> []"
    and "m + n \<le> 2 ^ 53"
  shows "dispatch_all env \<lparr>storeId = Some sid, items = [with_quantity fs (JNum (Fin (of_nat m)))]\<rparr>
           (replicate n \<lparr>type = ''ADD_ITEM'', payload = JObj ps\<rparr>)
         = Inr \<lparr>storeId = Some sid, items = [with_quantity fs (JNum (Fin (of_nat (m + n))))]\<rparr>"
  using assms(5)
proof (induction n arbitrary: m)
  case 0
  then show ?case by simp
next
  case (Suc n)
  let ?s = "\<lparr>storeId = Some sid, items = [with_quantity fs (JNum (Fin (of_nat m)))]\<rparr>"
  have "int m < 2 ^ 53" using Suc.prems by simp
  then have "plus_one (JNum (Fin (of_int (int m)))) = JNum (Fin (of_int (int m + 1)))"
    by (intro plus_one_integer) simp_all
  then have inc: "plus_one (JNum (Fin (of_nat m))) = JNum (Fin (of_nat (Suc m)))"
    by (simp add: add.commute)
  have "ADD_ITEM env ?s fs sid =
      (Fresh \<lparr>storeId = Some sid, items = [with_quantity fs (JNum (Fin (of_nat (Suc m))))]\<rparr>, [])"
    using ADD_ITEM_merge [of ?s sid 0 fs env] inc
    by (simp add: field_with_quantity del: plus_one.simps of_nat_Suc)
  then have "dispatch env ?s \<lparr>type = ''ADD_ITEM'', payload = JObj ps\<rparr>
      = Inr \<lparr>storeId = Some sid, items = [with_quantity fs (JNum (Fin (of_nat (Suc m))))]\<rparr>"
    using reducer_ADD_ITEM_accepts [OF assms(1-4), of env ?s]
    by (simp add: dispatch_def bind_res_def deref_def del: of_nat_Suc)
  moreover have "Suc m + n \<le> 2 ^ 53" using Suc.prems by simp
  ultimately show ?case using Suc.IH [of "Suc m"] by (simp add: bind_res_def del: of_nat_Suc)
qed

text \<open>
  The claim as the specification states it fails on a cart the reducer produces: after
  UPDATE_QUANTITY has set the quantity to \<open>2^53\<close>, another ADD_ITEM of the same product
  leaves the quantity at \<open>2^53\<close>, because the double nearest to \<open>2^53 + 1\<close> is \<open>2^53\<close>.
\<close>

lemma round_double_2_53_plus_1: "round_double 9007199254740993 = Fin 9007199254740992"
proof -
  have e: "ilog2 9007199254740993 = 53" by (rule ilog2_unique) simp_all
  have q: "quantum 9007199254740993 = 2" by (simp add: quantum_def e)
  have f: "\<lfloor>(9007199254740993::rat) / 2\<rfloor> = 4503599627370496"
    by (rule floor_unique) simp_all
  have h: "round_half_even (9007199254740993 / 2) = 4503599627370496"
    by (simp add: round_half_even_def Let_def f)
  show ?thesis
    by (simp add: round_double_def round_pos_def overflow_threshold_def q h)
qed

theorem add_beyond_2_53_counterexample:
  "dispatch_all ''production'' initialCartState
     [\<lparr>type = ''ADD_ITEM'',
       payload = JObj [(''item'', JObj [(''productId'', JStr ''milk''), (''name'', JStr ''Milk''),
                                       (''price'', JNum (Fin 30))]),
                       (''storeId'', JStr ''storeA'')]\<rparr>,
      \<lparr>type = ''UPDATE_QUANTITY'',
       payload = JObj [(''productId'', JStr ''milk''), (''quantity'', JNum (Fin 9007199254740992))]\<rparr>,
      \<lparr>type = ''ADD_ITEM'',
       payload = JObj [(''item'', JObj [(''productId'', JStr ''milk''), (''name'', JStr ''Milk''),
                                       (''price'', JNum (Fin 30))]),
                       (''storeId'', JStr ''storeA'')]\<rparr>]
   = Inr \<lparr>storeId = Some ''storeA'',
          items = [[(''productId'', JStr ''milk''), (''name'', JStr ''Milk''),
                    (''price'', JNum (Fin 30)), (''quantity'', JNum (Fin 9007199254740992))]]\<rparr>
   \<and> JNum (Fin 9007199254740992) \<noteq> JNum (Fin (9007199254740992 + 1))"
proof -
  let ?add = "\<lparr>type = ''ADD_ITEM'',
       payload = JObj [(''item'', JObj [(''productId'', JStr ''milk''), (''name'', JStr ''Milk''),
                                       (''price'', JNum (Fin 30))]),
                       (''storeId'', JStr ''storeA'')]\<rparr>"
  let ?upd = "\<lparr>type = ''UPDATE_QUANTITY'',
       payload = JObj [(''productId'', JStr ''milk''), (''quantity'', JNum (Fin 9007199254740992))]\<rparr>"
  let ?s1 = "\<lparr>storeId = Some ''storeA'',
          items = [[(''productId'', JStr ''milk''), (''name'', JStr ''Milk''),
                    (''price'', JNum (Fin 30)), (''quantity'', JNum (Fin 1))]]\<rparr>"
  let ?s2 = "\<lparr>storeId = Some ''storeA'',
          items = [[(''productId'', JStr ''milk''), (''name'', JStr ''Milk''),
                    (''price'', JNum (Fin 30)), (''quantity'', JNum (Fin 9007199254740992))]]\<rparr>"
  note r = round_double_2_53_plus_1
  have a1: "dispatch ''production'' initialCartState ?add = Inr ?s1"
    by (simp add: dispatch_def cartReducer_def bind_res_def field_def invalid_item_def
          ADD_ITEM_def initialCartState_def findIndex_def deref_def with_quantity_def)
  have a2: "dispatch ''production'' ?s1 ?upd = Inr ?s2"
    by (simp add: dispatch_def cartReducer_def bind_res_def field_def UPDATE_QUANTITY_def
          findIndex_def map_index_def deref_def with_quantity_def)
  have a3: "dispatch ''production'' ?s2 ?add = Inr ?s2"
    by (simp add: dispatch_def cartReducer_def bind_res_def field_def invalid_item_def
          ADD_ITEM_def findIndex_def map_index_def deref_def with_quantity_def r)
  from a1 a2 a3 show ?thesis by (simp add: bind_res_def)
qed

text \<open>
  Claim C3, amended. For every \<open>N\<close> from 1 to \<open>2^53\<close> and every valid item and store, \<open>N\<close>
  ADD_ITEM actions with that payload, starting from the initial state, give a cart with
  exactly one entry, whose quantity is \<open>N\<close> and whose other properties are the item's.
  More generally, when the cart has no store or the payload's store: if the productId is
  already present, the first entry that has it (at index \<open>k\<close>) keeps its place, and its
  quantity \<open>q\<close> becomes \<open>q + 1\<close> whenever \<open>q\<close> is an integer with \<open>-2^53 \<le> q < 2^53\<close>; if
  the productId is absent, the item is appended with quantity 1. (Beyond \<open>2^53\<close> the sum
  \<open>q + 1\<close> is rounded to a double and can leave \<open>q\<close> as it is.)
\<close>

theorem add_item_merges:
  assumes "field ps ''item'' = JObj fs" and "valid_item fs"
    and "field ps ''storeId'' = JStr sid" and "sid \<noteq> []"
  shows "(0 < N \<and> N \<le> 2 ^ 53 \<longrightarrow>
            (\<exists>e. dispatch_all env initialCartState
                    (replicate N \<lparr>type = ''ADD_ITEM'', payload = JObj ps\<rparr>)
                    = Inr \<lparr>storeId = Some sid, items = [e]\<rparr>
                \<and> e = with_quantity fs (JNum (Fin (of_nat N)))
                \<and> field e ''quantity'' = JNum (Fin (of_nat N))
                \<and> (\<forall>key. key \<noteq> ''quantity'' \<longrightarrow> field e key = field fs key)))
       \<and> ((storeId s = None \<or> storeId s = Some sid) \<and> k < length (items s)
            \<and> field (items s ! k) ''productId'' = field fs ''productId''
            \<and> (\<forall>j<k. field (items s ! j) ''productId'' \<noteq> field fs ''productId'')
            \<and> field (items s ! k) ''quantity'' = JNum (Fin (of_int q))
            \<and> - (2 ^ 53) \<le> q \<and> q < 2 ^ 53
          \<longrightarrow> (\<exists>e. dispatch env s \<lparr>type = ''ADD_ITEM'', payload = JObj ps\<rparr>
                      = Inr \<lparr>storeId = Some sid, items = (items s)[k := e]\<rparr>
                  \<and> e = with_quantity (items s ! k) (JNum (Fin (of_int (q + 1))))
                  \<and> field e ''quantity'' = JNum (Fin (of_int (q + 1)))
                  \<and> (\<forall>key. key \<noteq> ''quantity'' \<longrightarrow> field e key = field (items s ! k) key)))
       \<and> ((storeId s = None \<or> storeId s = Some sid)
            \<and> (\<forall>it\<in>set (items s). field it ''productId'' \<noteq> field fs ''productId'')
          \<longrightarrow> (\<exists>e. dispatch env s \<lparr>type = ''ADD_ITEM'', payload = JObj ps\<rparr>
                      = Inr \<lparr>storeId = Some sid, items = items s @ [e]\<rparr>
                  \<and> e = with_quantity fs (JNum (Fin 1))
                  \<and> field e ''quantity'' = JNum (Fin 1)
                  \<and> (\<forall>key. key \<noteq> ''quantity'' \<longrightarrow> field e key = field fs key)))"
proof (intro conjI impI)
  assume N: "0 < N \<and> N \<le> 2 ^ 53"
  then obtain n where n: "N = Suc n" by (cases N) simp_all
  have first: "dispatch env initialCartState \<lparr>type = ''ADD_ITEM'', payload = JObj ps\<rparr>
      = Inr \<lparr>storeId = Some sid, items = [with_quantity fs (JNum (Fin (of_nat 1)))]\<rparr>"
    using reducer_ADD_ITEM_accepts [OF assms, of env initialCartState]
      ADD_ITEM_append [of initialCartState sid fs env]
    by (simp add: dispatch_def bind_res_def deref_def initialCartState_def)
  have "1 + n \<le> 2 ^ 53" using N n by simp
  from repeated_add [OF assms this, of env] first n
  have "dispatch_all env initialCartState (replicate N \<lparr>type = ''ADD_ITEM'', payload = JObj ps\<rparr>)
      = Inr \<lparr>storeId = Some sid, items = [with_quantity fs (JNum (Fin (of_nat N)))]\<rparr>"
    by (simp add: bind_res_def del: of_nat_Suc)
  then show "\<exists>e. dispatch_all env initialCartState
                    (replicate N \<lparr>type = ''ADD_ITEM'', payload = JObj ps\<rparr>)
                    = Inr \<lparr>storeId = Some sid, items = [e]\<rparr>
                \<and> e = with_quantity fs (JNum (Fin (of_nat N)))
                \<and> field e ''quantity'' = JNum (Fin (of_nat N))
                \<and> (\<forall>key. key \<noteq> ''quantity'' \<longrightarrow> field e key = field fs key)"
    by (simp add: field_with_quantity)
next
  assume a: "(storeId s = None \<or> storeId s = Some sid) \<and> k < length (items s)
            \<and> field (items s ! k) ''productId'' = field fs ''productId''
            \<and> (\<forall>j<k. field (items s ! j) ''productId'' \<noteq> field fs ''productId'')
            \<and> field (items s ! k) ''quantity'' = JNum (Fin (of_int q))
            \<and> - (2 ^ 53) \<le> q \<and> q < 2 ^ 53"
  then have "ADD_ITEM env s fs sid =
           (Fresh \<lparr>storeId = Some sid,
                   items = (items s)[k := with_quantity (items s ! k)
                                            (plus_one (field (items s ! k) ''quantity''))]\<rparr>, [])"
    by (intro ADD_ITEM_merge) simp_all
  moreover have "plus_one (field (items s ! k) ''quantity'') = JNum (Fin (of_int (q + 1)))"
    using a plus_one_integer [of q] by simp
  ultimately have "dispatch env s \<lparr>type = ''ADD_ITEM'', payload = JObj ps\<rparr>
                = Inr \<lparr>storeId = Some sid,
                       items = (items s)[k := with_quantity (items s ! k)
                                                (JNum (Fin (of_int (q + 1))))]\<rparr>"
    using reducer_ADD_ITEM_accepts [OF assms, of env s]
    by (simp add: dispatch_def bind_res_def deref_def)
  then show "\<exists>e. dispatch env s \<lparr>type = ''ADD_ITEM'', payload = JObj ps\<rparr>
                      = Inr \<lparr>storeId = Some sid, items = (items s)[k := e]\<rparr>
                  \<and> e = with_quantity (items s ! k) (JNum (Fin (of_int (q + 1))))
                  \<and> field e ''quantity'' = JNum (Fin (of_int (q + 1)))
                  \<and> (\<forall>key. key \<noteq> ''quantity'' \<longrightarrow> field e key = field (items s ! k) key)"
    by (simp add: field_with_quantity)
next
  assume a: "(storeId s = None \<or> storeId s = Some sid)
            \<and> (\<forall>it\<in>set (items s). field it ''productId'' \<noteq> field fs ''productId'')"
  then have "ADD_ITEM env s fs sid =
           (Fresh \<lparr>storeId = Some sid, items = items s @ [with_quantity fs (JNum (Fin 1))]\<rparr>, [])"
    by (intro ADD_ITEM_append) simp_all
  then have "dispatch env s \<lparr>type = ''ADD_ITEM'', payload = JObj ps\<rparr>
                = Inr \<lparr>storeId = Some sid,
                       items = items s @ [with_quantity fs (JNum (Fin 1))]\<rparr>"
    using reducer_ADD_ITEM_accepts [OF assms, of env s]
    by (simp add: dispatch_def bind_res_def deref_def)
  then show "\<exists>e. dispatch env s \<lparr>type = ''ADD_ITEM'', payload = JObj ps\<rparr>
                      = Inr \<lparr>storeId = Some sid, items = items s @ [e]\<rparr>
                  \<and> e = with_quantity fs (JNum (Fin 1))
                  \<and> field e ''quantity'' = JNum (Fin 1)
                  \<and> (\<forall>key. key \<noteq> ''quantity'' \<longrightarrow> field e key = field fs key)"
    by (simp add: field_with_quantity)
qed

theorem add_item_merges_witness:
  "valid_item milk \<and> valid_item soap \<and> ''storeA'' \<noteq> [] \<and> (0::nat) < 3 \<and> (3::nat) \<le> 2 ^ 53
   \<and> - (2 ^ 53) \<le> (1::int) \<and> (1::int) < 2 ^ 53
   \<and> dispatch_all ''production'' initialCartState
        (replicate 3
          \<lparr>type = ''ADD_ITEM'',
           payload = JObj [(''item'', JObj [(''productId'', JStr ''milk''), (''name'', JStr ''Milk''),
                                           (''price'', JNum (Fin 30))]),
                           (''storeId'', JStr ''storeA'')]\<rparr>)
       = Inr \<lparr>storeId = Some ''storeA'',
              items = [[(''productId'', JStr ''milk''), (''name'', JStr ''Milk''),
                        (''price'', JNum (Fin 30)), (''quantity'', JNum (Fin 3))]]\<rparr>
   \<and> dispatch ''production''
        \<lparr>storeId = Some ''storeA'',
         items = [[(''productId'', JStr ''milk''), (''name'', JStr ''Milk''),
                   (''price'', JNum (Fin 30)), (''quantity'', JNum (Fin 2))],
                  [(''productId'', JStr ''soap''), (''name'', JStr ''Soap''),
                   (''price'', JNum (Fin 10)), (''quantity'', JNum (Fin 1))]]\<rparr>
        \<lparr>type = ''ADD_ITEM'',
         payload = JObj [(''item'', JObj [(''productId'', JStr ''soap''), (''name'', JStr ''Soap''),
                                         (''price'', JNum (Fin 10))]),
                         (''storeId'', JStr ''storeA'')]\<rparr>
       = Inr \<lparr>storeId = Some ''storeA'',
              items = [[(''productId'', JStr ''milk''), (''name'', JStr ''Milk''),
                        (''price'', JNum (Fin 30)), (''quantity'', JNum (Fin 2))],
                       [(''productId'', JStr ''soap''), (''name'', JStr ''Soap''),
                        (''price'', JNum (Fin 10)), (''quantity'', JNum (Fin 2))]]\<rparr>
   \<and> dispatch ''production''
        \<lparr>storeId = Some ''storeA'',
         items = [[(''productId'', JStr ''milk''), (''name'', JStr ''Milk''),
                   (''price'', JNum (Fin 30)), (''quantity'', JNum (Fin 2))]]\<rparr>
        \<lparr>type = ''ADD_ITEM'',
         payload = JObj [(''item'', JObj [(''productId'', JStr ''soap''), (''name'', JStr ''Soap''),
                                         (''price'', JNum (Fin 10))]),
                         (''storeId'', JStr ''storeA'')]\<rparr>
       = Inr \<lparr>storeId = Some ''storeA'',
              items = [[(''productId'', JStr ''milk''), (''name'', JStr ''Milk''),
                        (''price'', JNum (Fin 30)), (''quantity'', JNum (Fin 2))],
                       [(''productId'', JStr ''soap''), (''name'', JStr ''Soap''),
                        (''price'', JNum (Fin 10)), (''quantity'', JNum (Fin 1))]]\<rparr>"
proof -
  let ?pm = "[(''item'', JObj milk), (''storeId'', JStr ''storeA'')]"
  let ?ps = "[(''item'', JObj soap), (''storeId'', JStr ''storeA'')]"
  let ?m2 = "[(''productId'', JStr ''milk''), (''name'', JStr ''Milk''),
              (''price'', JNum (Fin 30)), (''quantity'', JNum (Fin 2))]"
  let ?s1 = "[(''productId'', JStr ''soap''), (''name'', JStr ''Soap''),
              (''price'', JNum (Fin 10)), (''quantity'', JNum (Fin 1))]"
  let ?c1 = "\<lparr>storeId = Some ''storeA'', items = [?m2]\<rparr>"
  let ?c2 = "\<lparr>storeId = Some ''storeA'', items = [?m2, ?s1]\<rparr>"
  have m1: "field ?pm ''item'' = JObj milk" and m2: "field ?pm ''storeId'' = JStr ''storeA''"
    and s1: "field ?ps ''item'' = JObj soap" and s2: "field ?ps ''storeId'' = JStr ''storeA''"
    by (simp_all add: field_def)
  have ne: "''storeA'' \<noteq> []" by simp
  have three: "(0::nat) < 3 \<and> (3::nat) \<le> 2 ^ 53" by simp
  have h2: "(storeId ?c2 = None \<or> storeId ?c2 = Some ''storeA'') \<and> 1 < length (items ?c2)
      \<and> field (items ?c2 ! 1) ''productId'' = field soap ''productId''
      \<and> (\<forall>j<1. field (items ?c2 ! j) ''productId'' \<noteq> field soap ''productId'')
      \<and> field (items ?c2 ! 1) ''quantity'' = JNum (Fin (of_int 1))
      \<and> - (2 ^ 53) \<le> (1::int) \<and> (1::int) < 2 ^ 53"
    by (simp add: soap_def field_def)
  have h3: "(storeId ?c1 = None \<or> storeId ?c1 = Some ''storeA'')
      \<and> (\<forall>it\<in>set (items ?c1). field it ''productId'' \<noteq> field soap ''productId'')"
    by (simp add: soap_def field_def)
  from add_item_merges [OF m1 valid_milk m2 ne, where N = 3 and env = "''production''"] three
  have c1: "dispatch_all ''production'' initialCartState
        (replicate 3 \<lparr>type = ''ADD_ITEM'', payload = JObj ?pm\<rparr>)
       = Inr \<lparr>storeId = Some ''storeA'', items = [with_quantity milk (JNum (Fin 3))]\<rparr>"
    by auto
  from add_item_merges [OF s1 valid_soap s2 ne, where s = ?c2 and k = 1 and q = 1
      and env = "''production''"] h2
  have c2: "dispatch ''production'' ?c2 \<lparr>type = ''ADD_ITEM'', payload = JObj ?ps\<rparr>
       = Inr \<lparr>storeId = Some ''storeA'', items = [?m2, with_quantity ?s1 (JNum (Fin 2))]\<rparr>"
    by auto
  from add_item_merges [OF s1 valid_soap s2 ne, where s = ?c1 and env = "''production''"] h3
  have c3: "dispatch ''production'' ?c1 \<lparr>type = ''ADD_ITEM'', payload = JObj ?ps\<rparr>
       = Inr \<lparr>storeId = Some ''storeA'', items = [?m2, with_quantity soap (JNum (Fin 1))]\<rparr>"
    by auto
  from c1 c2 c3 valid_milk valid_soap show ?thesis
    by (simp add: milk_def soap_def with_quantity_def)
qed

text \<open>
  Claim C10. When ADD_ITEM merges into the entry at index \<open>k\<close> that has the payload's
  productId (same store), every property of that entry other than \<^verbatim>\<open>quantity\<close>, in
  particular name and price, is the one the entry had, whatever name and price the payload
  carries; the quantity is the old one plus 1; every other item is unchanged and the
  number of items is the same.
\<close>

theorem merge_keeps_other_fields:
  assumes "field ps ''item'' = JObj fs" and "valid_item fs"
    and "field ps ''storeId'' = JStr sid" and "sid \<noteq> []"
    and "storeId s = None \<or> storeId s = Some sid"
    and "k < length (items s)"
    and "field (items s ! k) ''productId'' = field fs ''productId''"
    and "\<forall>j<k. field (items s ! j) ''productId'' \<noteq> field fs ''productId''"
  shows "\<exists>t. dispatch env s \<lparr>type = ''ADD_ITEM'', payload = JObj ps\<rparr> = Inr t
           \<and> length (items t) = length (items s)
           \<and> (\<forall>key. key \<noteq> ''quantity'' \<longrightarrow> field (items t ! k) key = field (items s ! k) key)
           \<and> field (items t ! k) ''quantity'' = plus_one (field (items s ! k) ''quantity'')
           \<and> (\<forall>j<length (items s). j \<noteq> k \<longrightarrow> items t ! j = items s ! j)"
proof -
  have "dispatch env s \<lparr>type = ''ADD_ITEM'', payload = JObj ps\<rparr>
      = Inr \<lparr>storeId = Some sid,
             items = (items s)[k := with_quantity (items s ! k)
                                      (plus_one (field (items s ! k) ''quantity''))]\<rparr>"
    using reducer_ADD_ITEM_accepts [OF assms(1-4), of env s] ADD_ITEM_merge [OF assms(5-8), of env]
    by (simp add: dispatch_def bind_res_def deref_def)
  then show ?thesis using assms(6) by (simp add: field_with_quantity)
qed

theorem merge_keeps_other_fields_witness:
  "valid_item oat_milk \<and> storeId cartA = Some ''storeA'' \<and> 0 < length (items cartA)
   \<and> field (items cartA ! 0) ''productId'' = field oat_milk ''productId''
   \<and> field oat_milk ''name'' \<noteq> field (items cartA ! 0) ''name''
   \<and> field oat_milk ''price'' \<noteq> field (items cartA ! 0) ''price''
   \<and> (\<exists>t. dispatch ''production'' cartA (addItem_action (JObj oat_milk) (JStr ''storeA'')) = Inr t
        \<and> length (items t) = 1
        \<and> field (items t ! 0) ''name'' = JStr ''Milk''
        \<and> field (items t ! 0) ''price'' = JNum (Fin 30)
        \<and> field (items t ! 0) ''quantity'' = JNum (Fin 3))"
proof -
  let ?ps = "[(''item'', JObj oat_milk), (''storeId'', JStr ''storeA'')]"
  have p1: "field ?ps ''item'' = JObj oat_milk" and p2: "field ?ps ''storeId'' = JStr ''storeA''"
    by (simp_all add: field_def)
  have ne: "''storeA'' \<noteq> []" by simp
  have h1: "storeId cartA = None \<or> storeId cartA = Some ''storeA''" by (simp add: cartA_def)
  have h2: "0 < length (items cartA)" by (simp add: cartA_def)
  have h3: "field (items cartA ! 0) ''productId'' = field oat_milk ''productId''"
    by (simp add: cartA_def with_quantity_def milk_def oat_milk_def field_def)
  have h4: "\<forall>j<0. field (items cartA ! j) ''productId'' \<noteq> field oat_milk ''productId''"
    by simp
  have old: "field (items cartA ! 0) ''name'' = JStr ''Milk''"
    "field (items cartA ! 0) ''price'' = JNum (Fin 30)"
    "field (items cartA ! 0) ''quantity'' = JNum (Fin 2)"
    by (simp_all add: cartA_def with_quantity_def milk_def field_def)
  have new: "field oat_milk ''name'' = JStr ''Oat milk''" "field oat_milk ''price'' = JNum (Fin 99)"
    by (simp_all add: oat_milk_def field_def)
  from merge_keeps_other_fields [OF p1 valid_oat_milk p2 ne h1 h2 h3 h4, where env = "''production''"]
  obtain t where t: "dispatch ''production'' cartA \<lparr>type = ''ADD_ITEM'', payload = JObj ?ps\<rparr> = Inr t"
    "length (items t) = length (items cartA)"
    "\<forall>key. key \<noteq> ''quantity'' \<longrightarrow> field (items t ! 0) key = field (items cartA ! 0) key"
    "field (items t ! 0) ''quantity'' = plus_one (field (items cartA ! 0) ''quantity'')"
    by blast
  from t(3) old have "field (items t ! 0) ''name'' = JStr ''Milk''"
    "field (items t ! 0) ''price'' = JNum (Fin 30)" by simp_all
  moreover from t(4) old have "field (items t ! 0) ''quantity'' = JNum (Fin 3)"
    by (simp add: round_double_numeral)
  moreover from t(2) have "length (items t) = 1" by (simp add: cartA_def)
  ultimately show ?thesis using t(1) valid_oat_milk h2 h3 old new
    by (simp add: addItem_action_def cartA_def)
qed

section \<open>Malformed payloads\<close>

text \<open>
  Claim C7. For every state and every malformed payload (no payload object, a missing or
  empty productId, name or storeId, an identifier that is not a string, a price or
  quantity that is not a number or is NaN, a negative price), ADD_ITEM, REMOVE_ITEM and
  UPDATE_QUANTITY return the state object they were given and throw nothing; the one
  effect is a single warning that carries the payload.
\<close>

theorem malformed_payload_rejected:
  "(\<not> wellformed_ADD_ITEM p \<longrightarrow>
      cartReducer env s \<lparr>type = ''ADD_ITEM'', payload = p\<rparr>
        = Inr (The_state, [Warn ''[CartContext] Invalid ADD_ITEM payload:'' [p]]))
   \<and> (\<not> wellformed_REMOVE_ITEM p \<longrightarrow>
      cartReducer env s \<lparr>type = ''REMOVE_ITEM'', payload = p\<rparr>
        = Inr (The_state, [Warn ''[CartContext] Invalid REMOVE_ITEM payload:'' [p]]))
   \<and> (\<not> wellformed_UPDATE_QUANTITY p \<longrightarrow>
      cartReducer env s \<lparr>type = ''UPDATE_QUANTITY'', payload = p\<rparr>
        = Inr (The_state, [Warn ''[CartContext] Invalid UPDATE_QUANTITY payload:'' [p]]))"
  by (simp add: reducer_ADD_ITEM_rejects reducer_REMOVE_ITEM_rejects
        reducer_UPDATE_QUANTITY_rejects)

theorem malformed_payload_rejected_witness:
  "\<not> wellformed_ADD_ITEM (JObj [(''item'', JObj free_milk), (''storeId'', JStr ''storeA'')])
   \<and> cartReducer ''production'' cartA (addItem_action (JObj free_milk) (JStr ''storeA''))
       = Inr (The_state, [Warn ''[CartContext] Invalid ADD_ITEM payload:''
                            [JObj [(''item'', JObj free_milk), (''storeId'', JStr ''storeA'')]]])
   \<and> \<not> wellformed_REMOVE_ITEM JUndefined
   \<and> cartReducer ''production'' cartA \<lparr>type = ''REMOVE_ITEM'', payload = JUndefined\<rparr>
       = Inr (The_state, [Warn ''[CartContext] Invalid REMOVE_ITEM payload:'' [JUndefined]])
   \<and> \<not> wellformed_UPDATE_QUANTITY (JObj [(''productId'', JStr ''milk''), (''quantity'', JNum NaN)])
   \<and> cartReducer ''production'' cartA (updateQuantity_action (JStr ''milk'') (JNum NaN))
       = Inr (The_state, [Warn ''[CartContext] Invalid UPDATE_QUANTITY payload:''
                            [JObj [(''productId'', JStr ''milk''), (''quantity'', JNum NaN)]]])"
proof -
  have h1: "\<not> wellformed_ADD_ITEM (JObj [(''item'', JObj free_milk), (''storeId'', JStr ''storeA'')])"
    by (simp add: wellformed_ADD_ITEM_def valid_item_def field_def free_milk_def)
  have h2: "\<not> wellformed_REMOVE_ITEM JUndefined"
    by (simp add: wellformed_REMOVE_ITEM_def)
  have h3: "\<not> wellformed_UPDATE_QUANTITY
      (JObj [(''productId'', JStr ''milk''), (''quantity'', JNum NaN)])"
    by (simp add: wellformed_UPDATE_QUANTITY_def field_def)
  from malformed_payload_rejected
         [of "JObj [(''item'', JObj free_milk), (''storeId'', JStr ''storeA'')]" "''production''" cartA]
       malformed_payload_rejected [of JUndefined "''production''" cartA]
       malformed_payload_rejected
         [of "JObj [(''productId'', JStr ''milk''), (''quantity'', JNum NaN)]" "''production''" cartA]
       h1 h2 h3
  show ?thesis by (simp add: addItem_action_def updateQuantity_action_def)
qed

section \<open>An absent productId\<close>

text \<open>
  The claim as the specification states it fails for REMOVE_ITEM: on a cart that does not
  hold the productId, the reducer builds a new object with the same contents; it does not
  hand back the object it was given. (The cart is not empty, so it is not the constant
  initial state either.)
\<close>

theorem absent_id_remove_is_fresh_counterexample:
  "cartReducer ''production'' cartA (removeItem_action (JStr ''nonexistent'')) = Inr (Fresh cartA, [])
   \<and> \<not> same_reference (cartReducer ''production'' cartA (removeItem_action (JStr ''nonexistent'')))"
  by (simp add: removeItem_action_def cartReducer_def bind_res_def field_def remove_from_def
        cartA_def milk_def with_quantity_def same_reference_def)

text \<open>
  Claim C9, amended. For every non-empty cart and every non-empty string productId that no
  item has: UPDATE_QUANTITY with a positive integer quantity returns the very state object
  it was given; REMOVE_ITEM returns a newly built state whose storeId and items are those
  of the state it was given, so the next state is equal to the old one in value.
\<close>

theorem absent_id_noop:
  assumes "items s \<noteq> []" and "pid \<noteq> []"
    and "\<forall>it\<in>set (items s). field it ''productId'' \<noteq> JStr pid"
  shows "(field ps ''productId'' = JStr pid \<and> field ps ''quantity'' = JNum q
            \<and> Number_isInteger q \<and> num_le (Fin 1) q
          \<longrightarrow> same_reference (cartReducer env s \<lparr>type = ''UPDATE_QUANTITY'', payload = JObj ps\<rparr>)
              \<and> dispatch env s \<lparr>type = ''UPDATE_QUANTITY'', payload = JObj ps\<rparr> = Inr s)
       \<and> (field ps' ''productId'' = JStr pid
          \<longrightarrow> cartReducer env s \<lparr>type = ''REMOVE_ITEM'', payload = JObj ps'\<rparr> = Inr (Fresh s, [])
              \<and> dispatch env s \<lparr>type = ''REMOVE_ITEM'', payload = JObj ps'\<rparr> = Inr s)"
proof (intro conjI impI)
  assume a: "field ps ''productId'' = JStr pid \<and> field ps ''quantity'' = JNum q
            \<and> Number_isInteger q \<and> num_le (Fin 1) q"
  then obtain r where q: "q = Fin r" and r: "1 \<le> r" "of_int \<lfloor>r\<rfloor> = r" by (cases q) simp_all
  from r have pos: "\<not> num_le (Math_floor q) (Fin 0)" using q by simp
  have idx: "findIndex (\<lambda>item. field item ''productId'' = JStr pid) (items s) = - 1"
    using assms(3) by (simp add: findIndex_none)
  have red: "cartReducer env s \<lparr>type = ''UPDATE_QUANTITY'', payload = JObj ps\<rparr>
      = Inr (The_state, if env = ''development''
               then [Warn (''[CartContext] UPDATE_QUANTITY: Item with productId '' @ pid
                           @ '' not found in cart.'') []]
               else [])"
    using a assms(2) q pos idx
    by (simp add: reducer_UPDATE_QUANTITY_accepts UPDATE_QUANTITY_def)
  show "same_reference (cartReducer env s \<lparr>type = ''UPDATE_QUANTITY'', payload = JObj ps\<rparr>)"
    by (simp add: red same_reference_def)
  show "dispatch env s \<lparr>type = ''UPDATE_QUANTITY'', payload = JObj ps\<rparr> = Inr s"
    by (simp add: dispatch_def red bind_res_def deref_def)
next
  assume a: "field ps' ''productId'' = JStr pid"
  show red: "cartReducer env s \<lparr>type = ''REMOVE_ITEM'', payload = JObj ps'\<rparr> = Inr (Fresh s, [])"
    using a assms by (simp add: reducer_REMOVE_ITEM_accepts remove_from_def filter_absent)
  show "dispatch env s \<lparr>type = ''REMOVE_ITEM'', payload = JObj ps'\<rparr> = Inr s"
    by (simp add: dispatch_def red bind_res_def deref_def)
qed

theorem absent_id_noop_witness:
  "items cartA \<noteq> [] \<and> ''nonexistent'' \<noteq> []
   \<and> items cartA = [with_quantity milk (JNum (Fin 2))]
   \<and> field (with_quantity milk (JNum (Fin 2))) ''productId'' \<noteq> JStr ''nonexistent''
   \<and> Number_isInteger (Fin 3) \<and> num_le (Fin 1) (Fin 3)
   \<and> same_reference (cartReducer ''production'' cartA
         (updateQuantity_action (JStr ''nonexistent'') (JNum (Fin 3))))
   \<and> dispatch ''production'' cartA (updateQuantity_action (JStr ''nonexistent'') (JNum (Fin 3)))
       = Inr cartA
   \<and> cartReducer ''production'' cartA (removeItem_action (JStr ''nonexistent''))
       = Inr (Fresh cartA, [])
   \<and> dispatch ''production'' cartA (removeItem_action (JStr ''nonexistent'')) = Inr cartA"
proof -
  have h1: "items cartA \<noteq> []" by (simp add: cartA_def)
  have h2: "''nonexistent'' \<noteq> []" by simp
  have h3: "\<forall>it\<in>set (items cartA). field it ''productId'' \<noteq> JStr ''nonexistent''"
    by (simp add: cartA_def milk_def with_quantity_def field_def)
  have h4: "field [(''productId'', JStr ''nonexistent''), (''quantity'', JNum (Fin 3))] ''productId''
        = JStr ''nonexistent''
      \<and> field [(''productId'', JStr ''nonexistent''), (''quantity'', JNum (Fin 3))] ''quantity''
        = JNum (Fin 3)
      \<and> Number_isInteger (Fin 3) \<and> num_le (Fin 1) (Fin 3)"
    by (simp add: field_def)
  have h5: "field [(''productId'', JStr ''nonexistent'')] ''productId'' = JStr ''nonexistent''"
    by (simp add: field_def)
  from absent_id_noop [OF h1 h2 h3, of
      "[(''productId'', JStr ''nonexistent''), (''quantity'', JNum (Fin 3))]" "Fin 3"
      "''production''" "[(''productId'', JStr ''nonexistent'')]"] h4 h5 h1 h3
  show ?thesis
    by (simp add: updateQuantity_action_def removeItem_action_def)
       (simp add: cartA_def milk_def with_quantity_def field_def)
qed

section \<open>The total\<close>











section \<open>The invariant of the cart\<close>

lemma cart_inv_initial: "cart_inv Q initialCartState"
  by (simp add: cart_inv_def initialCartState_def)

lemma cart_inv_update_entry:
  assumes inv: "cart_inv Q s" and k: "k < length (items s)" and Q: "Q v"
  shows "cart_inv Q (s\<lparr>items := (items s)[k := with_quantity (items s ! k) v]\<rparr>)"
proof -
  let ?xs = "items s" and ?y = "with_quantity (items s ! k) v"
  have mem: "it \<in> set (?xs[k := ?y]) \<Longrightarrow> it = ?y \<or> it \<in> set ?xs" for it
    using set_update_subset_insert [of ?xs k ?y] by auto
  have xk: "?xs ! k \<in> set ?xs" using k by simp
  have ids: "map (\<lambda>it. field it ''productId'') (?xs[k := ?y]) = map (\<lambda>it. field it ''productId'') ?xs"
    using k by (simp add: map_update field_with_quantity list_update_same_conv)
  have quantities: "\<forall>it\<in>set (?xs[k := ?y]). Q (field it ''quantity'')"
  proof
    fix it assume "it \<in> set (?xs[k := ?y])"
    from mem [OF this] show "Q (field it ''quantity'')"
    proof
      assume "it = ?y"
      then show ?thesis using Q by (simp add: field_with_quantity)
    next
      assume "it \<in> set ?xs"
      then show ?thesis using inv by (simp add: cart_inv_def)
    qed
  qed
  have prices: "\<forall>it\<in>set (?xs[k := ?y]). nonneg_number (field it ''price'')"
  proof
    fix it assume "it \<in> set (?xs[k := ?y])"
    from mem [OF this] show "nonneg_number (field it ''price'')"
    proof
      assume "it = ?y"
      then show ?thesis using inv xk by (simp add: field_with_quantity cart_inv_def)
    next
      assume "it \<in> set ?xs"
      then show ?thesis using inv by (simp add: cart_inv_def)
    qed
  qed
  have "storeId s = None \<longleftrightarrow> ?xs[k := ?y] = []"
    using inv by (simp add: cart_inv_def)
  then show ?thesis using inv ids quantities prices by (simp add: cart_inv_def)
qed

lemma cart_inv_store:
  assumes "cart_inv Q t" and "items t \<noteq> []"
  shows "cart_inv Q \<lparr>storeId = Some x, items = items t\<rparr>"
  using assms by (simp add: cart_inv_def)

lemma cart_inv_filter:
  assumes inv: "cart_inv Q s" and ne: "filter P (items s) \<noteq> []"
  shows "cart_inv Q (s\<lparr>items := filter P (items s)\<rparr>)"
proof -
  from ne have "items s \<noteq> []" by auto
  with inv show ?thesis using ne by (auto simp: cart_inv_def distinct_map_filter)
qed

lemma remove_from_inv:
  assumes "cart_inv Q s"
  shows "cart_inv Q (deref s (fst (remove_from s pid)))"
  using assms cart_inv_filter [OF assms, of "\<lambda>item. field item ''productId'' \<noteq> JStr pid"]
  by (simp add: remove_from_def Let_def deref_def cart_inv_initial)

lemma ADD_ITEM_inv:
  assumes inv: "cart_inv Q s" and v: "valid_item fs"
    and one: "Q (JNum (Fin 1))" and step: "\<And>v. Q v \<Longrightarrow> Q (plus_one v)"
  shows "cart_inv Q (deref s (fst (ADD_ITEM env s fs sid)))"
proof (cases "storeId s \<noteq> None \<and> storeId s \<noteq> Some sid")
  case True
  then show ?thesis using v one
    by (simp add: ADD_ITEM_def deref_def cart_inv_def field_with_quantity valid_item_def)
next
  case False
  then have same: "storeId s = None \<or> storeId s = Some sid" by auto
  show ?thesis
  proof (cases "\<exists>it\<in>set (items s). field it ''productId'' = field fs ''productId''")
    case True
    from first_match_exists [OF True] obtain k where k: "k < length (items s)"
      and at: "field (items s ! k) ''productId'' = field fs ''productId''"
      and before: "\<forall>j<k. field (items s ! j) ''productId'' \<noteq> field fs ''productId''"
      by blast
    have "Q (plus_one (field (items s ! k) ''quantity''))"
      using inv k by (intro step) (simp add: cart_inv_def)
    from cart_inv_update_entry [OF inv k this]
    have "cart_inv Q \<lparr>storeId = Some sid,
        items = (items s)[k := with_quantity (items s ! k)
                                 (plus_one (field (items s ! k) ''quantity''))]\<rparr>"
      using k by (auto dest: cart_inv_store)
    then show ?thesis by (simp add: ADD_ITEM_merge [OF same k at before] deref_def)
  next
    case False
    then have none: "\<forall>it\<in>set (items s). field it ''productId'' \<noteq> field fs ''productId''"
      by blast
    have "cart_inv Q \<lparr>storeId = Some sid, items = items s @ [with_quantity fs (JNum (Fin 1))]\<rparr>"
      using inv v one none
      by (auto simp: cart_inv_def field_with_quantity valid_item_def)
    then show ?thesis by (simp add: ADD_ITEM_append [OF same none] deref_def)
  qed
qed

lemma UPDATE_QUANTITY_inv:
  assumes inv: "cart_inv Q s"
    and Q: "\<not> num_le (Math_floor q) (Fin 0) \<Longrightarrow> Q (JNum (Math_floor q))"
  shows "cart_inv Q (deref s (fst (UPDATE_QUANTITY env s pid q)))"
proof (cases "num_le (Math_floor q) (Fin 0)")
  case True
  then have "UPDATE_QUANTITY env s pid q = remove_from s pid"
    by (simp add: UPDATE_QUANTITY_def remove_from_def)
  then show ?thesis using remove_from_inv [OF inv] by simp
next
  case False
  show ?thesis
  proof (cases "\<exists>it\<in>set (items s). field it ''productId'' = JStr pid")
    case True
    from first_match_exists [OF True] obtain k where k: "k < length (items s)"
      and at: "field (items s ! k) ''productId'' = JStr pid"
      and before: "\<forall>j<k. field (items s ! j) ''productId'' \<noteq> JStr pid"
      by blast
    have idx: "findIndex (\<lambda>item. field item ''productId'' = JStr pid) (items s) = int k"
      using k at before by (intro findIndex_first) simp_all
    have "cart_inv Q (s\<lparr>items := (items s)[k := with_quantity (items s ! k) (JNum (Math_floor q))]\<rparr>)"
      using cart_inv_update_entry [OF inv k Q [OF False]] .
    then show ?thesis using False k
      by (simp add: UPDATE_QUANTITY_def Let_def idx map_index_update_nat deref_def)
  next
    case False
    then have "findIndex (\<lambda>item. field item ''productId'' = JStr pid) (items s) = - 1"
      by (intro findIndex_none) blast
    then show ?thesis using \<open>\<not> num_le (Math_floor q) (Fin 0)\<close> inv
      by (simp add: UPDATE_QUANTITY_def Let_def deref_def)
  qed
qed

lemma cart_inv_mono:
  assumes "cart_inv Q s" and "\<And>v. Q v \<Longrightarrow> Q' v"
  shows "cart_inv Q' s"
  using assms by (simp add: cart_inv_def)

lemma MAX_succ_below_threshold: "Number_MAX_VALUE + 1 < overflow_threshold"
  by (simp add: Number_MAX_VALUE_def overflow_threshold_def)

lemma plus_one_of_positive_integer:
  assumes "of_int \<lfloor>r\<rfloor> = r" and "1 \<le> r"
  shows "num_add (Fin r) (Fin 1) = PosInf
         \<or> (\<exists>y. num_add (Fin r) (Fin 1) = Fin (of_int y) \<and> 1 \<le> y)"
    and "r \<le> Number_MAX_VALUE \<Longrightarrow>
         \<exists>y. num_add (Fin r) (Fin 1) = Fin (of_int y) \<and> 1 \<le> y \<and> of_int y \<le> Number_MAX_VALUE"
proof -
  define n where "n = \<lfloor>r\<rfloor> + 1"
  have "of_int n = rat_of_int \<lfloor>r\<rfloor> + 1" by (simp add: n_def)
  then have x: "r + 1 = of_int n" by (simp only: assms(1))
  have "1 \<le> \<lfloor>r\<rfloor>" using assms(2) by (simp add: le_floor_iff)
  then have n1: "1 \<le> n" by (simp add: n_def)
  have pos: "0 < r + 1" using assms(2) by simp
  then have "0 < rat_of_int n" by (simp only: x)
  then have "round_double (of_int n) = round_pos (of_int n)" by (simp add: round_double_def)
  then have rd: "num_add (Fin r) (Fin 1) = round_pos (of_int n)"
    by (simp only: num_add.simps x)
  from round_pos_integer [OF n1]
  show alt: "num_add (Fin r) (Fin 1) = PosInf
         \<or> (\<exists>y. num_add (Fin r) (Fin 1) = Fin (of_int y) \<and> 1 \<le> y)"
    by (simp only: rd)
  show "\<exists>y. num_add (Fin r) (Fin 1) = Fin (of_int y) \<and> 1 \<le> y \<and> of_int y \<le> Number_MAX_VALUE"
    if "r \<le> Number_MAX_VALUE"
  proof -
    have "r + 1 < overflow_threshold" using that MAX_succ_below_threshold by simp
    then have "rat_of_int n < overflow_threshold" by (simp only: x)
    then have "round_pos (of_int n) \<noteq> PosInf" by (simp add: round_pos_def)
    with round_pos_integer [OF n1]
    obtain y where y: "round_pos (of_int n) = Fin (of_int y)" "1 \<le> y" by auto
    from round_pos_le_MAX [OF \<open>0 < rat_of_int n\<close> y(1)] y
    have "round_pos (of_int n) = Fin (of_int y) \<and> 1 \<le> y \<and> of_int y \<le> Number_MAX_VALUE"
      by simp
    then show ?thesis by (simp only: rd) blast
  qed
qed

lemma positive_integer_or_infinity_plus_one:
  assumes "positive_integer_or_infinity v"
  shows "positive_integer_or_infinity (plus_one v)"
proof (cases v)
  case (JNum n)
  show ?thesis
  proof (cases n)
    case (Fin r)
    with assms JNum have "of_int \<lfloor>r\<rfloor> = r" "1 \<le> r" by simp_all
    from plus_one_of_positive_integer(1) [OF this] show ?thesis
      using JNum Fin by auto
  qed (use assms JNum in simp_all)
qed (use assms in simp_all)

lemma bounded_positive_integer_plus_one:
  assumes "bounded_positive_integer v"
  shows "bounded_positive_integer (plus_one v)"
proof (cases v)
  case (JNum n)
  show ?thesis
  proof (cases n)
    case (Fin r)
    with assms JNum have "of_int \<lfloor>r\<rfloor> = r" "1 \<le> r" "r \<le> Number_MAX_VALUE" by simp_all
    from plus_one_of_positive_integer(2) [OF this] show ?thesis
      using JNum Fin by auto
  qed (use assms JNum in simp_all)
qed (use assms in simp_all)

lemma bounded_positive_integer_positive: "bounded_positive_integer v \<Longrightarrow> positive_integer v"
  by (cases v) simp_all

lemma floor_quantity:
  assumes "q \<noteq> NaN" and "\<not> num_le (Math_floor q) (Fin 0)"
  shows "positive_integer_or_infinity (JNum (Math_floor q))"
    and "\<not> num_less (Fin Number_MAX_VALUE) q \<Longrightarrow> bounded_positive_integer (JNum (Math_floor q))"
proof -
  have fin: "q = Fin r \<Longrightarrow> of_int \<lfloor>rat_of_int \<lfloor>r\<rfloor>\<rfloor> = rat_of_int \<lfloor>r\<rfloor> \<and> 1 \<le> rat_of_int \<lfloor>r\<rfloor>" for r
  proof -
    assume "q = Fin r"
    with assms(2) have "0 < \<lfloor>r\<rfloor>" by simp
    then have "1 \<le> \<lfloor>r\<rfloor>" by linarith
    then have "1 \<le> rat_of_int \<lfloor>r\<rfloor>" by (metis of_int_1 of_int_le_iff)
    then show ?thesis by simp
  qed
  show "positive_integer_or_infinity (JNum (Math_floor q))"
    using assms fin by (cases q) simp_all
  show "bounded_positive_integer (JNum (Math_floor q))" if "\<not> num_less (Fin Number_MAX_VALUE) q"
  proof (cases q)
    case (Fin r)
    with that have "r \<le> Number_MAX_VALUE" by simp
    moreover have "rat_of_int \<lfloor>r\<rfloor> \<le> r" by simp
    ultimately have "rat_of_int \<lfloor>r\<rfloor> \<le> Number_MAX_VALUE" by (rule order_trans [rotated])
    with fin [OF Fin] Fin show ?thesis by simp
  qed (use assms that in simp_all)
qed

lemma dispatch_inv:
  assumes inv: "cart_inv Q s" and one: "Q (JNum (Fin 1))" and step: "\<And>v. Q v \<Longrightarrow> Q (plus_one v)"
    and ty: "type a \<in> {''ADD_ITEM'', ''REMOVE_ITEM'', ''UPDATE_QUANTITY'', ''CLEAR_CART''}"
    and upd: "\<And>ps q. type a = ''UPDATE_QUANTITY'' \<Longrightarrow> payload a = JObj ps \<Longrightarrow>
                field ps ''quantity'' = JNum q \<Longrightarrow> q \<noteq> NaN \<Longrightarrow>
                \<not> num_le (Math_floor q) (Fin 0) \<Longrightarrow> Q (JNum (Math_floor q))"
  shows "\<exists>t. dispatch env s a = Inr t \<and> cart_inv Q t"
proof -
  have a: "a = \<lparr>type = type a, payload = payload a\<rparr>" by simp
  consider (add) "type a = ''ADD_ITEM''" | (remove) "type a = ''REMOVE_ITEM''"
    | (update) "type a = ''UPDATE_QUANTITY''" | (clear) "type a = ''CLEAR_CART''"
    using ty by auto
  then show ?thesis
  proof cases
    case add
    show ?thesis
    proof (cases "wellformed_ADD_ITEM (payload a)")
      case False
      from reducer_ADD_ITEM_rejects [OF False, of env s] add a
      have "cartReducer env s a
          = Inr (The_state, [Warn ''[CartContext] Invalid ADD_ITEM payload:'' [payload a]])"
        by metis
      from dispatch_fst [OF this] inv show ?thesis by (simp add: deref_def)
    next
      case True
      then obtain ps fs sid where p: "payload a = JObj ps" and f: "field ps ''item'' = JObj fs"
        "valid_item fs" "field ps ''storeId'' = JStr sid" "sid \<noteq> []"
        by (rule wellformed_ADD_ITEM_E)
      from reducer_ADD_ITEM_accepts [OF f, of env s] add a p
      have "cartReducer env s a = Inr (ADD_ITEM env s fs sid)" by metis
      from dispatch_fst [OF this] ADD_ITEM_inv [OF inv f(2) one step, of env sid]
      show ?thesis by simp
    qed
  next
    case remove
    show ?thesis
    proof (cases "wellformed_REMOVE_ITEM (payload a)")
      case False
      from reducer_REMOVE_ITEM_rejects [OF False, of env s] remove a
      have "cartReducer env s a
          = Inr (The_state, [Warn ''[CartContext] Invalid REMOVE_ITEM payload:'' [payload a]])"
        by metis
      from dispatch_fst [OF this] inv show ?thesis by (simp add: deref_def)
    next
      case True
      then obtain ps pid where p: "payload a = JObj ps"
        and f: "field ps ''productId'' = JStr pid" "pid \<noteq> []"
        by (rule wellformed_REMOVE_ITEM_E)
      from reducer_REMOVE_ITEM_accepts [OF f, of env s] remove a p
      have "cartReducer env s a = Inr (remove_from s pid)" by metis
      from dispatch_fst [OF this] remove_from_inv [OF inv, of pid]
      show ?thesis by simp
    qed
  next
    case update
    show ?thesis
    proof (cases "wellformed_UPDATE_QUANTITY (payload a)")
      case False
      from reducer_UPDATE_QUANTITY_rejects [OF False, of env s] update a
      have "cartReducer env s a
          = Inr (The_state, [Warn ''[CartContext] Invalid UPDATE_QUANTITY payload:'' [payload a]])"
        by metis
      from dispatch_fst [OF this] inv show ?thesis by (simp add: deref_def)
    next
      case True
      then obtain ps pid q where p: "payload a = JObj ps"
        and f: "field ps ''productId'' = JStr pid" "pid \<noteq> []" "field ps ''quantity'' = JNum q"
          "q \<noteq> NaN"
        by (rule wellformed_UPDATE_QUANTITY_E)
      from reducer_UPDATE_QUANTITY_accepts [OF f, of env s] update a p
      have "cartReducer env s a = Inr (UPDATE_QUANTITY env s pid q)" by metis
      from dispatch_fst [OF this]
        UPDATE_QUANTITY_inv [OF inv upd [OF update p f(3) f(4)], of env pid]
      show ?thesis by simp
    qed
  next
    case clear
    then have "cartReducer env s a = Inr (The_initialCartState, [])"
      by (simp add: cartReducer_def)
    from dispatch_fst [OF this] show ?thesis by (simp add: deref_def cart_inv_initial)
  qed
qed

lemma dispatch_all_inv:
  assumes "cart_inv Q s" and "Q (JNum (Fin 1))" and "\<And>v. Q v \<Longrightarrow> Q (plus_one v)"
    and "\<forall>a\<in>set as. type a \<in> {''ADD_ITEM'', ''REMOVE_ITEM'', ''UPDATE_QUANTITY'', ''CLEAR_CART''}"
    and "\<And>a ps q. a \<in> set as \<Longrightarrow> type a = ''UPDATE_QUANTITY'' \<Longrightarrow> payload a = JObj ps \<Longrightarrow>
                field ps ''quantity'' = JNum q \<Longrightarrow> q \<noteq> NaN \<Longrightarrow>
                \<not> num_le (Math_floor q) (Fin 0) \<Longrightarrow> Q (JNum (Math_floor q))"
  shows "\<exists>t. dispatch_all env s as = Inr t \<and> cart_inv Q t"
  using assms
proof (induction as arbitrary: s)
  case Nil
  then show ?case by simp
next
  case (Cons a as)
  from dispatch_inv [OF Cons.prems(1-3), of a env] Cons.prems(4,5)
  obtain t where t: "dispatch env s a = Inr t" "cart_inv Q t" by auto
  from Cons.IH [OF t(2) Cons.prems(2,3)] Cons.prems(4,5)
  obtain u where "dispatch_all env t as = Inr u" "cart_inv Q u" by auto
  with t show ?case by (simp add: bind_res_def)
qed

lemma reachable_carts:
  assumes "\<forall>a\<in>set as. type a \<in> {''ADD_ITEM'', ''REMOVE_ITEM'', ''UPDATE_QUANTITY'', ''CLEAR_CART''}"
  shows "\<exists>t. dispatch_all env initialCartState as = Inr t
           \<and> cart_inv positive_integer_or_infinity t
           \<and> ((\<forall>a\<in>set as. \<not> infinite_quantity a) \<longrightarrow> cart_invariant t)"
proof -
  have "\<exists>t. dispatch_all env initialCartState as = Inr t \<and> cart_inv positive_integer_or_infinity t"
  proof (rule dispatch_all_inv [where Q = positive_integer_or_infinity])
    show "cart_inv positive_integer_or_infinity initialCartState" by (rule cart_inv_initial)
    show "positive_integer_or_infinity (JNum (Fin 1))" by simp
    show "positive_integer_or_infinity (plus_one v)" if "positive_integer_or_infinity v" for v
      using that by (rule positive_integer_or_infinity_plus_one)
    show "\<forall>a\<in>set as. type a \<in> {''ADD_ITEM'', ''REMOVE_ITEM'', ''UPDATE_QUANTITY'', ''CLEAR_CART''}"
      by (rule assms)
    show "positive_integer_or_infinity (JNum (Math_floor q))"
      if "q \<noteq> NaN" "\<not> num_le (Math_floor q) (Fin 0)" for q
      using that by (rule floor_quantity(1))
  qed
  then obtain t where t: "dispatch_all env initialCartState as = Inr t"
    "cart_inv positive_integer_or_infinity t" by blast
  have "cart_invariant t" if fin: "\<forall>a\<in>set as. \<not> infinite_quantity a"
  proof -
    have "\<exists>u. dispatch_all env initialCartState as = Inr u \<and> cart_inv bounded_positive_integer u"
    proof (rule dispatch_all_inv [where Q = bounded_positive_integer])
      show "cart_inv bounded_positive_integer initialCartState" by (rule cart_inv_initial)
      show "bounded_positive_integer (JNum (Fin 1))" by (simp add: Number_MAX_VALUE_def)
      show "bounded_positive_integer (plus_one v)" if "bounded_positive_integer v" for v
        using that by (rule bounded_positive_integer_plus_one)
      show "\<forall>a\<in>set as. type a \<in> {''ADD_ITEM'', ''REMOVE_ITEM'', ''UPDATE_QUANTITY'', ''CLEAR_CART''}"
        by (rule assms)
      show "bounded_positive_integer (JNum (Math_floor q))"
        if "a \<in> set as" "type a = ''UPDATE_QUANTITY''" "payload a = JObj ps"
          "field ps ''quantity'' = JNum q" "q \<noteq> NaN" "\<not> num_le (Math_floor q) (Fin 0)"
        for a ps q
      proof -
        from that fin have "\<not> num_less (Fin Number_MAX_VALUE) q"
          by (auto simp: infinite_quantity_def)
        with that(5,6) show ?thesis by (intro floor_quantity(2))
      qed
    qed
    with t have "cart_inv bounded_positive_integer t" by simp
    then show ?thesis
      unfolding cart_invariant_def
      by (rule cart_inv_mono) (rule bounded_positive_integer_positive)
  qed
  with t show ?thesis by blast
qed

text \<open>
  Claim C1. From the initial state, an ADD_ITEM followed by an UPDATE_QUANTITY whose
  quantity is \<^verbatim>\<open>Infinity\<close> leaves an item whose quantity is \<^verbatim>\<open>Infinity\<close>, which is
  not an integer, so the invariant of the specification does not hold after this sequence
  (lemma \<open>infinite_quantity_cart_not_invariant\<close>). Lemma \<open>reachable_carts\<close> above shows
  that this is the only way to break it: a quantity above \<^verbatim>\<open>Number.MAX_VALUE\<close> is
  \<^verbatim>\<open>Infinity\<close> in JavaScript.
\<close>

theorem infinite_quantity_breaks_invariant:
  "dispatch_all ''production'' initialCartState
     [addItem_action (JObj milk) (JStr ''storeA''),
      updateQuantity_action (JStr ''milk'') (JNum PosInf)]
   = Inr \<lparr>storeId = Some ''storeA'', items = [with_quantity milk (JNum PosInf)]\<rparr>
   \<and> field (with_quantity milk (JNum PosInf)) ''quantity'' = JNum PosInf
   \<and> \<not> positive_integer (JNum PosInf)
   \<and> \<not> Number_isInteger PosInf"
proof -
  have add: "dispatch ''production'' initialCartState (addItem_action (JObj milk) (JStr ''storeA''))
      = Inr \<lparr>storeId = Some ''storeA'', items = [with_quantity milk (JNum (Fin 1))]\<rparr>"
    by (simp add: dispatch_def addItem_action_def cartReducer_def bind_res_def field_def
        invalid_item_def milk_def ADD_ITEM_def initialCartState_def findIndex_def deref_def)
  have upd: "dispatch ''production''
        \<lparr>storeId = Some ''storeA'', items = [with_quantity milk (JNum (Fin 1))]\<rparr>
        (updateQuantity_action (JStr ''milk'') (JNum PosInf))
      = Inr \<lparr>storeId = Some ''storeA'', items = [with_quantity milk (JNum PosInf)]\<rparr>"
    by (simp add: dispatch_def updateQuantity_action_def cartReducer_def bind_res_def field_def
        milk_def UPDATE_QUANTITY_def findIndex_def map_index_def deref_def with_quantity_def)
  from add upd show ?thesis by (simp add: bind_res_def field_with_quantity)
qed

lemma infinite_quantity_cart_not_invariant:
  "\<not> cart_invariant \<lparr>storeId = Some ''storeA'', items = [with_quantity milk (JNum PosInf)]\<rparr>"
  by (simp add: cart_invariant_def cart_inv_def field_with_quantity)

end
